theory Spec2Isabelle
  imports
    Main
    "HOL-Library.Sublist"
    "HOL-Library.Multiset"
    "HOL-Library.Char_ord"
    "HOL-Library.List_Lexorder"
    "HOL-Library.Product_Lexorder"
begin

section \<open>Gaza Care Hub: the storage and export services\<close>

text \<open>
  The development embeds \<^verbatim>\<open>src/services/storage.ts\<close> and
  \<^verbatim>\<open>src/services/export.ts\<close>. JavaScript numbers that hold instants
  (\<^verbatim>\<open>Date.now()\<close>) and ages are integers here, strings are \<open>string\<close>
  (a character is a code unit below 256, a letter of Latin-1), an optional property (\<^verbatim>\<open>field?: T\<close>) is an \<open>option\<close>,
  \<^verbatim>\<open>Partial<Patient>\<close> is a record of options. The readings of the clock and
  the results of \<^verbatim>\<open>crypto.randomUUID()\<close> are parameters of the operations that
  ask for them. A thrown \<^verbatim>\<open>Error\<close> is the left summand of the result.
\<close>

subsection \<open>Errors\<close>

datatype error =
    Error string
  | RangeError string
  | ConstraintError string

fun message :: "error \<Rightarrow> string" where
  "message (Error m) = m"
| "message (RangeError m) = m"
| "message (ConstraintError m) = m"

text \<open>
  Every public method of the two services wraps what it catches:
  \<^verbatim>\<open>throw new Error(`Failed to ...: ${error.message}`)\<close>.
\<close>

definition rethrow :: "string \<Rightarrow> error + 'a \<Rightarrow> error + 'a" where
  "rethrow ctx r = (case r of Inl e \<Rightarrow> Inl (Error (ctx @ '': '' @ message e)) | Inr v \<Rightarrow> Inr v)"

subsection \<open>Strings and numbers of the host language\<close>

definition digit_char :: "nat \<Rightarrow> char" where
  "digit_char d = ''0123456789'' ! d"

fun dec :: "nat \<Rightarrow> string" where
  "dec n = (if n < 10 then [digit_char n] else dec (n div 10) @ [digit_char (n mod 10)])"

declare dec.simps [simp del]

text \<open>\<^verbatim>\<open>Number.prototype.toString\<close> on an integer.\<close>

definition number_toString :: "int \<Rightarrow> string" where
  "number_toString i = (if i < 0 then CHR ''-'' # dec (nat (- i)) else dec (nat i))"

text \<open>Decimal digits, zero-padded on the left to a width.\<close>

definition pad :: "nat \<Rightarrow> nat \<Rightarrow> string" where
  "pad w n = replicate (w - length (dec n)) CHR ''0'' @ dec n"

text \<open>\<^verbatim>\<open>Array.prototype.join\<close> on an array of strings.\<close>

fun join :: "string \<Rightarrow> string list \<Rightarrow> string" where
  "join sep [] = []"
| "join sep [x] = x"
| "join sep (x # y # ys) = x @ sep @ join sep (y # ys)"

text \<open>\<^verbatim>\<open>s.replace(/c/g, r)\<close> for a one-character pattern.\<close>

definition replace_all :: "char \<Rightarrow> string \<Rightarrow> string \<Rightarrow> string" where
  "replace_all c r s = concat (map (\<lambda>x. if x = c then r else [x]) s)"

text \<open>\<^verbatim>\<open>s.includes(t)\<close>: \<open>t\<close> occurs in \<open>s\<close> as a contiguous block.\<close>

fun str_includes :: "string \<Rightarrow> string \<Rightarrow> bool" where
  "str_includes [] t = (t = [])"
| "str_includes (c # s) t = (prefix t (c # s) \<or> str_includes s t)"

text \<open>
  \<^verbatim>\<open>s.toLowerCase()\<close>. Of the code units below 256 the capital letters are A to Z
  (65 to 90) and the accented capitals from 192 to 222 without the multiplication sign
  215; the lower-case letter of each is 32 further. No other code unit below 256 changes.
\<close>

definition is_capital :: "char \<Rightarrow> bool" where
  "is_capital c =
     (let n = of_char c :: nat
      in (65 \<le> n \<and> n \<le> 90) \<or> (192 \<le> n \<and> n \<le> 214) \<or> (216 \<le> n \<and> n \<le> 222))"

definition lower_char :: "char \<Rightarrow> char" where
  "lower_char c = (if is_capital c then char_of (of_char c + (32::nat)) else c)"

definition toLowerCase :: "string \<Rightarrow> string" where
  "toLowerCase s = map lower_char s"

text \<open>\<^verbatim>\<open>a || d\<close> on strings: the empty string is falsy.\<close>

definition or_else :: "string \<Rightarrow> string \<Rightarrow> string" where
  "or_else a d = (if a = [] then d else a)"

text \<open>\<^verbatim>\<open>a || d\<close> where \<open>a\<close> may be \<^verbatim>\<open>undefined\<close>.\<close>

definition opt_or_else :: "string option \<Rightarrow> string \<Rightarrow> string" where
  "opt_or_else a d = (case a of None \<Rightarrow> d | Some s \<Rightarrow> or_else s d)"

text \<open>\<^verbatim>\<open>a || []\<close> where \<open>a\<close> is an array or \<^verbatim>\<open>undefined\<close>.\<close>

definition or_empty :: "'a list option \<Rightarrow> 'a list" where
  "or_empty a = (case a of None \<Rightarrow> [] | Some xs \<Rightarrow> xs)"

subsection \<open>\<^verbatim>\<open>Date.prototype.toISOString\<close>\<close>

text \<open>
  An instant is a number of milliseconds since 1970-01-01T00:00:00Z. The civil date of a
  day number is computed in the proleptic Gregorian calendar; \<open>div\<close> and \<open>mod\<close> on
  \<open>int\<close> round down, as the algorithm needs before 1970.
\<close>

definition ms_per_day :: int where
  "ms_per_day = 86400000"

definition civil_from_days :: "int \<Rightarrow> int \<times> int \<times> int" where
  "civil_from_days z0 =
     (let z = z0 + 719468;
          era = z div 146097;
          doe = z mod 146097;
          yoe = (doe - doe div 1460 + doe div 36524 - doe div 146096) div 365;
          y = yoe + era * 400;
          doy = doe - (365 * yoe + yoe div 4 - yoe div 100);
          mp = (5 * doy + 2) div 153;
          d = doy - (153 * mp + 2) div 5 + 1;
          m = (if mp < 10 then mp + 3 else mp - 9)
      in (if m \<le> 2 then y + 1 else y, m, d))"

definition iso_year :: "int \<Rightarrow> string" where
  "iso_year y =
     (if 0 \<le> y \<and> y \<le> 9999 then pad 4 (nat y)
      else (if y < 0 then ''-'' else ''+'') @ pad 6 (nat \<bar>y\<bar>))"

definition iso_string :: "int \<Rightarrow> string" where
  "iso_string t =
     (let (y, m, d) = civil_from_days (t div ms_per_day);
          r = t mod ms_per_day
      in iso_year y @ ''-'' @ pad 2 (nat m) @ ''-'' @ pad 2 (nat d) @ ''T''
         @ pad 2 (nat (r div 3600000)) @ '':''
         @ pad 2 (nat (r mod 3600000 div 60000)) @ '':''
         @ pad 2 (nat (r mod 60000 div 1000)) @ ''.''
         @ pad 3 (nat (r mod 1000)) @ ''Z'')"

text \<open>
  A date holds an instant at most 8.64e15 ms away from the epoch; on any other number
  \<^verbatim>\<open>toISOString\<close> throws a \<^verbatim>\<open>RangeError\<close>.
\<close>

definition valid_time :: "int \<Rightarrow> bool" where
  "valid_time t = (\<bar>t\<bar> \<le> 8640000000000000)"

definition toISOString :: "int \<Rightarrow> error + string" where
  "toISOString t =
     (if valid_time t then Inr (iso_string t) else Inl (RangeError ''Invalid time value''))"

subsection \<open>Export: the timestamped file name\<close>

text \<open>
  \<^verbatim>\<open>generateTimestampedFilename(prefix, extension)\<close>; \<open>now\<close> is the instant
  that \<^verbatim>\<open>new Date()\<close> reads and \<open>pfx\<close> is the source's \<^verbatim>\<open>prefix\<close>.
\<close>

definition generateTimestampedFilename :: "int \<Rightarrow> string \<Rightarrow> string \<Rightarrow> error + string" where
  "generateTimestampedFilename now pfx extension =
     (case toISOString now of
        Inl e \<Rightarrow> Inl e
      | Inr s \<Rightarrow>
          (let timestamp = take 19 (replace_all CHR ''.'' ''-'' (replace_all CHR '':'' ''-'' s))
           in Inr (pfx @ ''_'' @ timestamp @ ''.'' @ extension)))"

subsection \<open>The data model (\<^verbatim>\<open>src/types/index.ts\<close>)\<close>

datatype TriageLevel = Critical | Urgent | Stable

datatype PatientStatus = Waiting | InTreatment | Treated | Discharged | Transferred

datatype ShiftType = Outgoing | Incoming

datatype Priority = High | Medium | Low

datatype ChangeType = ChangeStatus | ChangeTriage | ChangeTreatment | ChangeNotes | ChangeVitals

text \<open>The string that each tag is at run time.\<close>

fun TriageLevel_str :: "TriageLevel \<Rightarrow> string" where
  "TriageLevel_str Critical = ''Critical''"
| "TriageLevel_str Urgent = ''Urgent''"
| "TriageLevel_str Stable = ''Stable''"

fun PatientStatus_str :: "PatientStatus \<Rightarrow> string" where
  "PatientStatus_str Waiting = ''Waiting''"
| "PatientStatus_str InTreatment = ''In Treatment''"
| "PatientStatus_str Treated = ''Treated''"
| "PatientStatus_str Discharged = ''Discharged''"
| "PatientStatus_str Transferred = ''Transferred''"

fun ChangeType_str :: "ChangeType \<Rightarrow> string" where
  "ChangeType_str ChangeStatus = ''status''"
| "ChangeType_str ChangeTriage = ''triage''"
| "ChangeType_str ChangeTreatment = ''treatment''"
| "ChangeType_str ChangeNotes = ''notes''"
| "ChangeType_str ChangeVitals = ''vitals''"

text \<open>
  \<^verbatim>\<open>Omit<HandoverNote, 'id' | 'timestamp' | 'patientId'>\<close> is the parent record;
  \<^verbatim>\<open>HandoverNote\<close> extends it with the three fields that the service assigns.
\<close>

record HandoverNoteData =
  staffName :: string
  shiftType :: ShiftType
  summary :: string
  criticalUpdates :: "string list"
  keyObservations :: string
  actionItems :: "string list"
  priority :: Priority

record HandoverNote = HandoverNoteData +
  hn_id :: string
  hn_patientId :: string
  hn_timestamp :: int

record StatusChange =
  sc_id :: string
  sc_patientId :: string
  sc_timestamp :: int
  changeType :: ChangeType
  previousValue :: string
  newValue :: string
  sc_staffName :: "string option"
  isHighlighted :: bool

text \<open>
  \<^verbatim>\<open>Omit<Patient, "id" | "timestamp">\<close> is the parent record; \<^verbatim>\<open>Patient\<close>
  extends it with the identifier (\<open>id'\<close>, the source's \<^verbatim>\<open>id\<close>) and the creation
  instant.
\<close>

record PatientData =
  name :: string
  age :: int
  symptoms :: "string list"
  condition :: string
  triageLevel :: TriageLevel
  status :: PatientStatus
  "notes" :: string
  lastUpdated :: int
  patientId :: "string option"
  mainComplaint :: "string option"
  medicalHistory :: "string option"
  examinationFindings :: "string option"
  provisionalDiagnosis :: "string option"
  treatmentPlan :: "string option"
  handoverNotes :: "HandoverNote list option"
  statusChanges :: "StatusChange list option"

record Patient = PatientData +
  id' :: string
  timestamp :: int

text \<open>\<^verbatim>\<open>Partial<Patient>\<close>: a property is present (\<open>Some\<close>) or left out.\<close>

record PartialPatient =
  u_id :: "string option"
  u_name :: "string option"
  u_age :: "int option"
  u_symptoms :: "string list option"
  u_condition :: "string option"
  u_triageLevel :: "TriageLevel option"
  u_timestamp :: "int option"
  u_status :: "PatientStatus option"
  u_notes :: "string option"
  u_lastUpdated :: "int option"
  u_patientId :: "string option"
  u_mainComplaint :: "string option"
  u_medicalHistory :: "string option"
  u_examinationFindings :: "string option"
  u_provisionalDiagnosis :: "string option"
  u_treatmentPlan :: "string option"
  u_handoverNotes :: "HandoverNote list option"
  u_statusChanges :: "StatusChange list option"

text \<open>
  What an operation reads from its host while it runs: \<open>now k\<close> is the result of its
  \<open>k\<close>-th call of \<^verbatim>\<open>Date.now()\<close> and \<open>randomUUID k\<close> the result of its \<open>k\<close>-th
  call of \<^verbatim>\<open>crypto.randomUUID()\<close>, both counted from 0.
\<close>

record host =
  now :: "nat \<Rightarrow> int"
  randomUUID :: "nat \<Rightarrow> string"

subsection \<open>The table \<^verbatim>\<open>patients\<close> of the database\<close>

text \<open>
  The object store keeps one record per primary key, the property \<^verbatim>\<open>id\<close> of the
  record itself. The storage engine is taken to be available: of its failures only the
  refusal of a second record under an existing key is modelled.
\<close>

type_synonym patients = "Patient list"

definition table_get :: "patients \<Rightarrow> string \<Rightarrow> Patient option" where
  "table_get tbl k = find (\<lambda>p. id' p = k) tbl"

definition table_add :: "patients \<Rightarrow> Patient \<Rightarrow> error + patients" where
  "table_add tbl p =
     (case table_get tbl (id' p) of
        Some _ \<Rightarrow> Inl (ConstraintError ''Key already exists in the object store.'')
      | None \<Rightarrow> Inr (tbl @ [p]))"

definition table_delete :: "patients \<Rightarrow> string \<Rightarrow> patients" where
  "table_delete tbl k = filter (\<lambda>p. id' p \<noteq> k) tbl"

text \<open>\<^verbatim>\<open>update(key, changes)\<close> sets every property that \<open>changes\<close> holds.\<close>

definition set_opt :: "'a option \<Rightarrow> 'a \<Rightarrow> 'a" where
  "set_opt c old = (case c of None \<Rightarrow> old | Some v \<Rightarrow> v)"

definition set_field :: "'a option \<Rightarrow> 'a option \<Rightarrow> 'a option" where
  "set_field c old = (case c of None \<Rightarrow> old | Some v \<Rightarrow> Some v)"

definition apply_changes :: "PartialPatient \<Rightarrow> Patient \<Rightarrow> Patient" where
  "apply_changes c p =
     \<lparr> name = set_opt (u_name c) (name p),
       age = set_opt (u_age c) (age p),
       symptoms = set_opt (u_symptoms c) (symptoms p),
       condition = set_opt (u_condition c) (condition p),
       triageLevel = set_opt (u_triageLevel c) (triageLevel p),
       status = set_opt (u_status c) (status p),
       notes = set_opt (u_notes c) (notes p),
       lastUpdated = set_opt (u_lastUpdated c) (lastUpdated p),
       patientId = set_field (u_patientId c) (patientId p),
       mainComplaint = set_field (u_mainComplaint c) (mainComplaint p),
       medicalHistory = set_field (u_medicalHistory c) (medicalHistory p),
       examinationFindings = set_field (u_examinationFindings c) (examinationFindings p),
       provisionalDiagnosis = set_field (u_provisionalDiagnosis c) (provisionalDiagnosis p),
       treatmentPlan = set_field (u_treatmentPlan c) (treatmentPlan p),
       handoverNotes = set_field (u_handoverNotes c) (handoverNotes p),
       statusChanges = set_field (u_statusChanges c) (statusChanges p),
       id' = set_opt (u_id c) (id' p),
       timestamp = set_opt (u_timestamp c) (timestamp p) \<rparr>"

definition table_update :: "patients \<Rightarrow> string \<Rightarrow> PartialPatient \<Rightarrow> patients" where
  "table_update tbl k c = map (\<lambda>p. if id' p = k then apply_changes c p else p) tbl"

text \<open>
  \<^verbatim>\<open>orderBy("timestamp")\<close> walks the index on \<^verbatim>\<open>timestamp\<close>: ascending by the
  indexed value, records with the same value ascending by primary key.
\<close>

definition table_orderBy_timestamp :: "patients \<Rightarrow> Patient list" where
  "table_orderBy_timestamp tbl = sort_key (\<lambda>p. (timestamp p, id' p)) tbl"

subsection \<open>The storage service (\<^verbatim>\<open>src/services/storage.ts\<close>)\<close>

definition addPatient :: "patients \<Rightarrow> PatientData \<Rightarrow> host \<Rightarrow> error + (string \<times> patients)" where
  "addPatient tbl patient h =
     rethrow ''Failed to add patient''
       (let new_id = randomUUID h 0;
            ts = now h 0;
            fullPatient =
              \<lparr> name = name patient,
                age = age patient,
                symptoms = symptoms patient,
                condition = condition patient,
                triageLevel = triageLevel patient,
                status = Waiting,
                notes = [],
                lastUpdated = ts,
                patientId = patientId patient,
                mainComplaint = mainComplaint patient,
                medicalHistory = medicalHistory patient,
                examinationFindings = examinationFindings patient,
                provisionalDiagnosis = provisionalDiagnosis patient,
                treatmentPlan = treatmentPlan patient,
                handoverNotes = handoverNotes patient,
                statusChanges = statusChanges patient,
                id' = new_id,
                timestamp = ts \<rparr>
        in case table_add tbl fullPatient of
             Inl e \<Rightarrow> Inl e
           | Inr tbl' \<Rightarrow> Inr (new_id, tbl'))"

definition getPatients :: "patients \<Rightarrow> Patient list" where
  "getPatients tbl = rev (table_orderBy_timestamp tbl)"

text \<open>
  The local array \<^verbatim>\<open>newChanges\<close> of \<^verbatim>\<open>trackStatusChanges\<close>, built by four
  guarded pushes in this order; each push asks for one fresh identifier.
\<close>

definition newChanges :: "Patient \<Rightarrow> PartialPatient \<Rightarrow> int \<Rightarrow> (nat \<Rightarrow> string) \<Rightarrow> StatusChange list" where
  "newChanges existingPatient updates ts uuid =
     (let c1 = (case u_status updates of
                  Some s \<Rightarrow>
                    if s \<noteq> status existingPatient then
                      [\<lparr> sc_id = uuid 0, sc_patientId = id' existingPatient, sc_timestamp = ts,
                         changeType = ChangeStatus,
                         previousValue = or_else (PatientStatus_str (status existingPatient)) ''Unknown'',
                         newValue = PatientStatus_str s,
                         sc_staffName = None, isHighlighted = True \<rparr>]
                    else []
                | None \<Rightarrow> []);
          c2 = c1 @
               (case u_triageLevel updates of
                  Some l \<Rightarrow>
                    if l \<noteq> triageLevel existingPatient then
                      [\<lparr> sc_id = uuid (length c1), sc_patientId = id' existingPatient, sc_timestamp = ts,
                         changeType = ChangeTriage,
                         previousValue = TriageLevel_str (triageLevel existingPatient),
                         newValue = TriageLevel_str l,
                         sc_staffName = None, isHighlighted = True \<rparr>]
                    else []
                | None \<Rightarrow> []);
          c3 = c2 @
               (case u_notes updates of
                  Some n \<Rightarrow>
                    if n \<noteq> [] \<and> n \<noteq> notes existingPatient then
                      [\<lparr> sc_id = uuid (length c2), sc_patientId = id' existingPatient, sc_timestamp = ts,
                         changeType = ChangeNotes,
                         previousValue = or_else (notes existingPatient) ''No notes'',
                         newValue = n,
                         sc_staffName = None, isHighlighted = False \<rparr>]
                    else []
                | None \<Rightarrow> []);
          c4 = c3 @
               (case u_treatmentPlan updates of
                  Some t \<Rightarrow>
                    if t \<noteq> [] \<and> Some t \<noteq> treatmentPlan existingPatient then
                      [\<lparr> sc_id = uuid (length c3), sc_patientId = id' existingPatient, sc_timestamp = ts,
                         changeType = ChangeTreatment,
                         previousValue = opt_or_else (treatmentPlan existingPatient) ''No treatment plan'',
                         newValue = t,
                         sc_staffName = None, isHighlighted = True \<rparr>]
                    else []
                | None \<Rightarrow> [])
      in c4)"

text \<open>
  \<^verbatim>\<open>[...].sort((a, b) => b.timestamp - a.timestamp)\<close>: the sort of an array is
  stable, so this is the stable sort by descending \<^verbatim>\<open>timestamp\<close>.
\<close>

definition sort_newest_first :: "StatusChange list \<Rightarrow> StatusChange list" where
  "sort_newest_first cs = sort_key (\<lambda>c. - sc_timestamp c) cs"

definition trackStatusChanges ::
    "Patient \<Rightarrow> PartialPatient \<Rightarrow> int \<Rightarrow> (nat \<Rightarrow> string) \<Rightarrow> StatusChange list" where
  "trackStatusChanges existingPatient updates ts uuid =
     (let existingChanges = or_empty (statusChanges existingPatient);
          allChanges = take 50 (sort_newest_first
                                  (existingChanges @ newChanges existingPatient updates ts uuid))
      in allChanges)"

definition updatePatient :: "patients \<Rightarrow> string \<Rightarrow> PartialPatient \<Rightarrow> host \<Rightarrow> error + patients" where
  "updatePatient tbl pid updates h =
     rethrow ''Failed to update patient''
       (case table_get tbl pid of
          None \<Rightarrow> Inl (Error (''Patient with ID '' @ pid @ '' not found''))
        | Some existingPatient \<Rightarrow>
            (let allowedUpdates = updates\<lparr> u_id := None, u_timestamp := None \<rparr>;
                 changes = trackStatusChanges existingPatient allowedUpdates (now h 0) (randomUUID h);
                 updatesWithTimestamp =
                   allowedUpdates\<lparr> u_lastUpdated := Some (now h 1), u_statusChanges := Some changes \<rparr>
             in Inr (table_update tbl pid updatesWithTimestamp)))"

text \<open>
  The object \<^verbatim>\<open>{}\<close>; the changes object of \<^verbatim>\<open>addHandoverNote\<close> adds two
  properties to it.
\<close>

definition no_changes :: PartialPatient where
  "no_changes =
     \<lparr> u_id = None, u_name = None, u_age = None, u_symptoms = None, u_condition = None,
       u_triageLevel = None, u_timestamp = None, u_status = None, u_notes = None,
       u_lastUpdated = None, u_patientId = None, u_mainComplaint = None,
       u_medicalHistory = None, u_examinationFindings = None, u_provisionalDiagnosis = None,
       u_treatmentPlan = None, u_handoverNotes = None, u_statusChanges = None \<rparr>"

text \<open>The local constant \<^verbatim>\<open>newHandoverNote\<close> of \<^verbatim>\<open>addHandoverNote\<close>.\<close>

definition newHandoverNote :: "string \<Rightarrow> HandoverNoteData \<Rightarrow> host \<Rightarrow> HandoverNote" where
  "newHandoverNote pid handoverNote h =
     \<lparr> staffName = staffName handoverNote,
       shiftType = shiftType handoverNote,
       summary = summary handoverNote,
       criticalUpdates = criticalUpdates handoverNote,
       keyObservations = keyObservations handoverNote,
       actionItems = actionItems handoverNote,
       priority = priority handoverNote,
       hn_id = randomUUID h 0,
       hn_patientId = pid,
       hn_timestamp = now h 0 \<rparr>"

definition addHandoverNote :: "patients \<Rightarrow> string \<Rightarrow> HandoverNoteData \<Rightarrow> host \<Rightarrow> error + patients" where
  "addHandoverNote tbl pid handoverNote h =
     rethrow ''Failed to add handover note''
       (case table_get tbl pid of
          None \<Rightarrow> Inl (Error (''Patient with ID '' @ pid @ '' not found''))
        | Some existingPatient \<Rightarrow>
            (let existingNotes = or_empty (handoverNotes existingPatient);
                 updatedNotes = take 20 (newHandoverNote pid handoverNote h # existingNotes)
             in Inr (table_update tbl pid
                       (no_changes\<lparr> u_handoverNotes := Some updatedNotes,
                                    u_lastUpdated := Some (now h 1) \<rparr>))))"

definition deletePatient :: "patients \<Rightarrow> string \<Rightarrow> error + patients" where
  "deletePatient tbl pid =
     rethrow ''Failed to delete patient''
       (let tbl' = table_delete tbl pid
        in case table_get tbl' pid of
             Some existingPatient \<Rightarrow> Inl (Error (''Patient with ID '' @ pid @ '' could not be deleted''))
           | None \<Rightarrow> Inr tbl')"

definition searchPatients :: "patients \<Rightarrow> string \<Rightarrow> Patient list" where
  "searchPatients tbl searchTerm =
     (let allPatients = getPatients tbl;
          searchLower = toLowerCase searchTerm
      in filter (\<lambda>patient.
                   str_includes (toLowerCase (name patient)) searchLower \<or>
                   str_includes (toLowerCase (condition patient)) searchLower \<or>
                   str_includes (toLowerCase (notes patient)) searchLower)
           allPatients)"

subsection \<open>The export service (\<^verbatim>\<open>src/services/export.ts\<close>)\<close>

definition escapeCSVValue :: "string \<Rightarrow> string" where
  "escapeCSVValue v =
     (if str_includes v '','' \<or> str_includes v [CHR 0x22] \<or> str_includes v [CHR 0x0A]
         \<or> str_includes v [CHR 0x0D]
      then [CHR 0x22] @ replace_all (CHR 0x22) [CHR 0x22, CHR 0x22] v @ [CHR 0x22]
      else v)"

definition formatTimestamp :: "int \<Rightarrow> error + string" where
  "formatTimestamp t = toISOString t"

definition patientToCSVRow :: "Patient \<Rightarrow> error + string" where
  "patientToCSVRow patient =
     (let symptomsFormatted = join '';'' (symptoms patient)
      in case formatTimestamp (timestamp patient) of
           Inl e \<Rightarrow> Inl e
         | Inr timestampFormatted \<Rightarrow>
             Inr (join '',''
                   [escapeCSVValue (id' patient),
                    escapeCSVValue (name patient),
                    number_toString (age patient),
                    escapeCSVValue symptomsFormatted,
                    escapeCSVValue (condition patient),
                    escapeCSVValue (TriageLevel_str (triageLevel patient)),
                    escapeCSVValue timestampFormatted]))"

text \<open>\<^verbatim>\<open>patients.map(f)\<close> where \<open>f\<close> may throw: the first throw ends the walk.\<close>

fun map_throwing :: "('a \<Rightarrow> error + 'b) \<Rightarrow> 'a list \<Rightarrow> error + 'b list" where
  "map_throwing f [] = Inr []"
| "map_throwing f (x # xs) =
     (case f x of
        Inl e \<Rightarrow> Inl e
      | Inr y \<Rightarrow> (case map_throwing f xs of Inl e \<Rightarrow> Inl e | Inr ys \<Rightarrow> Inr (y # ys)))"

definition headers :: "string list" where
  "headers = [''Patient ID'', ''Name'', ''Age'', ''Symptoms'', ''Condition'', ''Triage Level'',
              ''Timestamp'']"

definition exportToCSV :: "patients \<Rightarrow> error + string" where
  "exportToCSV tbl =
     rethrow ''Failed to export CSV''
       (let patients = getPatients tbl
        in if length patients = 0 then Inr ''No patient data available for export''
           else (case map_throwing patientToCSVRow patients of
                   Inl e \<Rightarrow> Inl e
                 | Inr rows \<Rightarrow> Inr (join [CHR 0x0A] (join '','' headers # rows))))"

subsection \<open>What the audit trail should record\<close>

text \<open>
  The audit entry that a partial update calls for, per tag: the previous value, the new
  value and the highlight flag, or \<open>None\<close> when the field is left out, is given the
  value it already has, or (for the two free-text fields) is given the empty string.
  A free-text field that was empty or absent is reported under a placeholder.
\<close>

fun spec_change :: "Patient \<Rightarrow> PartialPatient \<Rightarrow> ChangeType \<Rightarrow> (string \<times> string \<times> bool) option" where
  "spec_change p u ChangeStatus =
     (case u_status u of
        Some s \<Rightarrow>
          if s \<noteq> status p then Some (PatientStatus_str (status p), PatientStatus_str s, True)
          else None
      | None \<Rightarrow> None)"
| "spec_change p u ChangeTriage =
     (case u_triageLevel u of
        Some l \<Rightarrow>
          if l \<noteq> triageLevel p then Some (TriageLevel_str (triageLevel p), TriageLevel_str l, True)
          else None
      | None \<Rightarrow> None)"
| "spec_change p u ChangeNotes =
     (case u_notes u of
        Some n \<Rightarrow>
          if n \<noteq> [] \<and> n \<noteq> notes p
          then Some (if notes p = [] then ''No notes'' else notes p, n, False)
          else None
      | None \<Rightarrow> None)"
| "spec_change p u ChangeTreatment =
     (case u_treatmentPlan u of
        Some t \<Rightarrow>
          if t \<noteq> [] \<and> Some t \<noteq> treatmentPlan p
          then Some (case treatmentPlan p of
                       None \<Rightarrow> ''No treatment plan''
                     | Some old \<Rightarrow> if old = [] then ''No treatment plan'' else old,
                     t, True)
          else None
      | None \<Rightarrow> None)"
| "spec_change p u ChangeVitals = None"

definition summary_of :: "StatusChange \<Rightarrow> string \<times> string \<times> bool" where
  "summary_of c = (previousValue c, newValue c, isHighlighted c)"

text \<open>One guarded push, seen through \<open>spec_change\<close>.\<close>

definition entry :: "Patient \<Rightarrow> int \<Rightarrow> string \<Rightarrow> ChangeType \<Rightarrow> string \<times> string \<times> bool \<Rightarrow> StatusChange" where
  "entry p ts i ct x =
     \<lparr> sc_id = i, sc_patientId = id' p, sc_timestamp = ts, changeType = ct,
       previousValue = fst x, newValue = fst (snd x), sc_staffName = None,
       isHighlighted = snd (snd x) \<rparr>"

definition push :: "Patient \<Rightarrow> PartialPatient \<Rightarrow> int \<Rightarrow> string \<Rightarrow> ChangeType \<Rightarrow> StatusChange list" where
  "push p u ts i ct = (case spec_change p u ct of None \<Rightarrow> [] | Some x \<Rightarrow> [entry p ts i ct x])"

subsection \<open>Runs of updates\<close>

text \<open>The record that a successful \<^verbatim>\<open>updatePatient\<close> leaves in place of \<open>p\<close>.\<close>

definition updated_record :: "Patient \<Rightarrow> PartialPatient \<Rightarrow> host \<Rightarrow> Patient" where
  "updated_record p u h =
     apply_changes
       (u\<lparr> u_id := None, u_timestamp := None, u_lastUpdated := Some (now h 1),
           u_statusChanges :=
             Some (trackStatusChanges p (u\<lparr> u_id := None, u_timestamp := None \<rparr>) (now h 0)
                     (randomUUID h)) \<rparr>) p"

text \<open>Calls of \<^verbatim>\<open>updatePatient\<close> on one key, one after the other.\<close>

fun updatePatients :: "patients \<Rightarrow> string \<Rightarrow> (PartialPatient \<times> host) list \<Rightarrow> error + patients" where
  "updatePatients tbl pid [] = Inr tbl"
| "updatePatients tbl pid ((u, h) # steps) =
     (case updatePatient tbl pid u h of
        Inl e \<Rightarrow> Inl e
      | Inr tbl' \<Rightarrow> updatePatients tbl' pid steps)"

text \<open>The entries that each call of such a run synthesizes, in the order of the calls.\<close>

fun synthesized :: "Patient \<Rightarrow> (PartialPatient \<times> host) list \<Rightarrow> StatusChange list list" where
  "synthesized p [] = []"
| "synthesized p ((u, h) # steps) =
     newChanges p u (now h 0) (randomUUID h) # synthesized (updated_record p u h) steps"

text \<open>
  \<open>cs\<close> holds the \<open>n\<close> most recently timestamped entries of \<open>every\<close>, newest first:
  it is ordered by descending timestamp, it takes \<open>n\<close> entries of \<open>every\<close> (all of them if
  there are fewer), and no entry left out is newer than an entry kept.
\<close>

definition newest_of :: "nat \<Rightarrow> StatusChange list \<Rightarrow> StatusChange list \<Rightarrow> bool" where
  "newest_of n cs every \<longleftrightarrow>
     sorted_wrt (\<lambda>a b. sc_timestamp a \<ge> sc_timestamp b) cs
     \<and> length cs = min n (length every)
     \<and> mset cs \<subseteq># mset every
     \<and> (\<forall>k \<in> set cs. \<forall>d \<in># mset every - mset cs. sc_timestamp d \<le> sc_timestamp k)"

text \<open>Insertion into a sorted list behind the entries of the same key.\<close>

fun insort_last :: "('a \<Rightarrow> 'k::linorder) \<Rightarrow> 'a \<Rightarrow> 'a list \<Rightarrow> 'a list" where
  "insort_last f x [] = [x]"
| "insort_last f x (y # ys) = (if f x < f y then x # y # ys else y # insort_last f x ys)"

subsection \<open>Runs of handover notes\<close>

text \<open>Calls of \<^verbatim>\<open>addHandoverNote\<close> on one key, one after the other.\<close>

fun addHandoverNotes :: "patients \<Rightarrow> string \<Rightarrow> (HandoverNoteData \<times> host) list \<Rightarrow> error + patients" where
  "addHandoverNotes tbl pid [] = Inr tbl"
| "addHandoverNotes tbl pid ((n, h) # steps) =
     (case addHandoverNote tbl pid n h of
        Inl e \<Rightarrow> Inl e
      | Inr tbl' \<Rightarrow> addHandoverNotes tbl' pid steps)"

text \<open>The notes that such a run creates, in the order of the calls.\<close>

definition created_notes :: "string \<Rightarrow> (HandoverNoteData \<times> host) list \<Rightarrow> HandoverNote list" where
  "created_notes pid steps = map (\<lambda>(n, h). newHandoverNote pid n h) steps"

subsection \<open>Matching without regard to case\<close>





subsection \<open>The delimited text that an export should be\<close>

definition dquote :: char where
  "dquote = CHR 0x22"

definition line_feed :: char where
  "line_feed = CHR 0x0A"

definition carriage_return :: char where
  "carriage_return = CHR 0x0D"

text \<open>A value needs quoting when it holds a comma, a double quote or a line break.\<close>

definition needs_quoting :: "string \<Rightarrow> bool" where
  "needs_quoting v \<longleftrightarrow>
     (\<exists>c \<in> set v. c = CHR '','' \<or> c = dquote \<or> c = line_feed \<or> c = carriage_return)"

text \<open>The value between double quotes, each double quote inside it written twice.\<close>

definition quoted :: "string \<Rightarrow> string" where
  "quoted v = dquote # concat (map (\<lambda>c. if c = dquote then [dquote, dquote] else [c]) v) @ [dquote]"

text \<open>
  The row of a record: identifier, name, age, symptoms joined by semicolons, condition,
  triage level and the creation instant in ISO 8601, each cell quoted if it needs to be,
  joined by commas.
\<close>

definition cell :: "string \<Rightarrow> string" where
  "cell v = (if needs_quoting v then quoted v else v)"

definition csv_row :: "Patient \<Rightarrow> string" where
  "csv_row p =
     join '',''
       [cell (id' p), cell (name p), number_toString (age p), cell (join '';'' (symptoms p)),
        cell (condition p), cell (TriageLevel_str (triageLevel p)),
        cell (iso_string (timestamp p))]"

definition header_row :: string where
  "header_row = ''Patient ID,Name,Age,Symptoms,Condition,Triage Level,Timestamp''"

subsection \<open>Sample data\<close>

definition sample_patient :: Patient where
  "sample_patient =
     \<lparr> name = ''Amal Said'', age = 34, symptoms = [''fever'', ''dizziness''],
       condition = ''High temperature since morning'', triageLevel = Urgent,
       status = Waiting, notes = ''abc'', lastUpdated = 1000,
       patientId = None, mainComplaint = None, medicalHistory = None,
       examinationFindings = None, provisionalDiagnosis = None, treatmentPlan = None,
       handoverNotes = None, statusChanges = None,
       id' = ''p1'', timestamp = 1000 \<rparr>"

definition sample_host :: host where
  "sample_host = \<lparr> now = (\<lambda>k. 2000 + int k), randomUUID = (\<lambda>k. ''uuid-'' @ dec k) \<rparr>"

definition treat_and_note :: PartialPatient where
  "treat_and_note = no_changes\<lparr> u_status := Some InTreatment, u_notes := Some ''IV fluids given'' \<rparr>"

definition clear_notes :: PartialPatient where
  "clear_notes = no_changes\<lparr> u_notes := Some [] \<rparr>"

definition rename_payload :: PartialPatient where
  "rename_payload = no_changes\<lparr> u_id := Some ''other'', u_timestamp := Some 0, u_name := Some ''X'' \<rparr>"

text \<open>A run that moves the status back and forth, one update every ten milliseconds.\<close>

definition toggle_step :: "nat \<Rightarrow> PartialPatient \<times> host" where
  "toggle_step i =
     (no_changes\<lparr> u_status := Some (if even i then InTreatment else Waiting) \<rparr>,
      \<lparr> now = (\<lambda>k. 3000 + 10 * int i + int k), randomUUID = (\<lambda>k. ''change-'' @ dec i) \<rparr>)"

definition toggle_steps :: "nat \<Rightarrow> (PartialPatient \<times> host) list" where
  "toggle_steps n = map toggle_step [0..<n]"

definition handover_step :: "nat \<Rightarrow> HandoverNoteData \<times> host" where
  "handover_step i =
     (\<lparr> staffName = ''Dr. Noor'', shiftType = Outgoing, summary = ''round '' @ dec i,
        criticalUpdates = [], keyObservations = ''stable'', actionItems = [''recheck''],
        priority = Medium \<rparr>,
      \<lparr> now = (\<lambda>k. 5000 + 10 * int i + int k), randomUUID = (\<lambda>k. ''note-'' @ dec i) \<rparr>)"

definition handover_steps :: "nat \<Rightarrow> (HandoverNoteData \<times> host) list" where
  "handover_steps n = map handover_step [0..<n]"

definition new_patient :: PatientData where
  "new_patient =
     \<lparr> name = ''Omar Khalil'', age = 7, symptoms = [''persistent cough''],
       condition = ''Cough for a week'', triageLevel = Stable,
       status = Treated, notes = ''ignored'', lastUpdated = 1,
       patientId = Some ''G-104'', mainComplaint = Some ''cough'', medicalHistory = None,
       examinationFindings = None, provisionalDiagnosis = None, treatmentPlan = None,
       handoverNotes = None, statusChanges = None \<rparr>"

definition second_patient :: Patient where
  "second_patient =
     \<lparr> name = ''Omar Khalil'', age = 7, symptoms = [''persistent cough'', ''rash''],
       condition = ''Cough, no Fever'', triageLevel = Stable,
       status = Waiting, notes = [], lastUpdated = 1500,
       patientId = None, mainComplaint = None, medicalHistory = None,
       examinationFindings = None, provisionalDiagnosis = None, treatmentPlan = None,
       handoverNotes = None, statusChanges = None,
       id' = ''p2'', timestamp = 1500 \<rparr>"

definition third_patient :: Patient where
  "third_patient =
     \<lparr> name = ''Lina Haddad'', age = 61, symptoms = [''chest pain''],
       condition = ''Pain on exertion'', triageLevel = Critical,
       status = InTreatment, notes = ''ECG ordered'', lastUpdated = 1800,
       patientId = None, mainComplaint = None, medicalHistory = None,
       examinationFindings = None, provisionalDiagnosis = None, treatmentPlan = None,
       handoverNotes = None, statusChanges = None,
       id' = ''p3'', timestamp = 1200 \<rparr>"


definition sample_table :: patients where
  "sample_table = [sample_patient, second_patient, third_patient]"

definition quoted_name_patient :: Patient where
  "quoted_name_patient =
     \<lparr> name = ''O'' @ [dquote] @ ''Brien, J.'', age = 52, symptoms = [''fever'', ''vomiting''],
       condition = ''Dehydrated'', triageLevel = Urgent,
       status = Waiting, notes = [], lastUpdated = 1705329045123,
       patientId = None, mainComplaint = None, medicalHistory = None,
       examinationFindings = None, provisionalDiagnosis = None, treatmentPlan = None,
       handoverNotes = None, statusChanges = None,
       id' = ''p9'', timestamp = 1705329045123 \<rparr>"

section \<open>Theorems\<close>

lemma toISOString_example:
  "toISOString 1705329045000 = Inr ''2024-01-15T14:30:45.000Z''"
  by code_simp

text \<open>
  C4. At the clock value 2024-01-15T14:30:45Z the file name built for the prefix
  triage-export and the extension csv is triage-export_2024-01-15T14-30-45.csv: the colons
  are replaced and the fraction and the zone are cut, but the letter T between the date and
  the time of day stays, so the name is not triage-export_2024-01-15_14-30-45.csv.
\<close>

theorem generateTimestampedFilename_keeps_T:
  "generateTimestampedFilename 1705329045000 ''triage-export'' ''csv''
     = Inr ''triage-export_2024-01-15T14-30-45.csv''
   \<and> generateTimestampedFilename 1705329045000 ''triage-export'' ''csv''
     \<noteq> Inr ''triage-export_2024-01-15_14-30-45.csv''"
  by code_simp

subsection \<open>Tracking of status changes\<close>

lemma PatientStatus_str_nonempty: "PatientStatus_str s \<noteq> []"
  by (cases s) simp_all

lemma status_push:
  "(case u_status u of
      Some s \<Rightarrow>
        if s \<noteq> status p then
          [\<lparr> sc_id = i, sc_patientId = id' p, sc_timestamp = ts,
             changeType = ChangeStatus,
             previousValue = or_else (PatientStatus_str (status p)) ''Unknown'',
             newValue = PatientStatus_str s,
             sc_staffName = None, isHighlighted = True \<rparr>]
        else []
    | None \<Rightarrow> []) = push p u ts i ChangeStatus"
  by (simp add: push_def entry_def or_else_def PatientStatus_str_nonempty split: option.split)

lemma triage_push:
  "(case u_triageLevel u of
      Some l \<Rightarrow>
        if l \<noteq> triageLevel p then
          [\<lparr> sc_id = i, sc_patientId = id' p, sc_timestamp = ts,
             changeType = ChangeTriage,
             previousValue = TriageLevel_str (triageLevel p),
             newValue = TriageLevel_str l,
             sc_staffName = None, isHighlighted = True \<rparr>]
        else []
    | None \<Rightarrow> []) = push p u ts i ChangeTriage"
  by (simp add: push_def entry_def split: option.split)

lemma notes_push:
  "(case u_notes u of
      Some n \<Rightarrow>
        if n \<noteq> [] \<and> n \<noteq> notes p then
          [\<lparr> sc_id = i, sc_patientId = id' p, sc_timestamp = ts,
             changeType = ChangeNotes,
             previousValue = or_else (notes p) ''No notes'',
             newValue = n,
             sc_staffName = None, isHighlighted = False \<rparr>]
        else []
    | None \<Rightarrow> []) = push p u ts i ChangeNotes"
  by (simp add: push_def entry_def or_else_def split: option.split)

lemma treatment_push:
  "(case u_treatmentPlan u of
      Some t \<Rightarrow>
        if t \<noteq> [] \<and> Some t \<noteq> treatmentPlan p then
          [\<lparr> sc_id = i, sc_patientId = id' p, sc_timestamp = ts,
             changeType = ChangeTreatment,
             previousValue = opt_or_else (treatmentPlan p) ''No treatment plan'',
             newValue = t,
             sc_staffName = None, isHighlighted = True \<rparr>]
        else []
    | None \<Rightarrow> []) = push p u ts i ChangeTreatment"
  by (simp add: push_def entry_def or_else_def opt_or_else_def split: option.split)

lemma newChanges_pushes:
  "newChanges p u ts uuid =
     (let c1 = push p u ts (uuid 0) ChangeStatus;
          c2 = c1 @ push p u ts (uuid (length c1)) ChangeTriage;
          c3 = c2 @ push p u ts (uuid (length c2)) ChangeNotes
      in c3 @ push p u ts (uuid (length c3)) ChangeTreatment)"
  unfolding newChanges_def status_push triage_push notes_push treatment_push
  by (simp add: Let_def)

lemma filter_push:
  "filter (\<lambda>c. changeType c = ct) (push p u ts i ct') = (if ct' = ct then push p u ts i ct' else [])"
  by (simp add: push_def entry_def split: option.split)

lemma summary_push:
  "map summary_of (push p u ts i ct) = (case spec_change p u ct of None \<Rightarrow> [] | Some x \<Rightarrow> [x])"
  by (simp add: push_def entry_def summary_of_def split: option.split)

lemma newChanges_by_type:
  "map summary_of (filter (\<lambda>c. changeType c = ct) (newChanges p u ts uuid))
     = (case spec_change p u ct of None \<Rightarrow> [] | Some x \<Rightarrow> [x])"
  by (cases ct) (simp_all add: newChanges_pushes Let_def filter_push summary_push)

lemma set_push:
  "c \<in> set (push p u ts i ct) \<Longrightarrow>
     sc_timestamp c = ts \<and> sc_patientId c = id' p \<and> sc_staffName c = None \<and> changeType c = ct"
  by (auto simp: push_def entry_def split: option.splits)

lemma newChanges_meta:
  "c \<in> set (newChanges p u ts uuid) \<Longrightarrow>
     sc_timestamp c = ts \<and> sc_patientId c = id' p \<and> sc_staffName c = None"
  by (auto simp: newChanges_pushes Let_def dest: set_push)

lemma newChanges_strip:
  "newChanges p (u\<lparr>u_id := a, u_timestamp := b\<rparr>) ts uuid = newChanges p u ts uuid"
  by (simp add: newChanges_def)

lemma id_apply_changes: "u_id c = None \<Longrightarrow> id' (apply_changes c p) = id' p"
  by (simp add: apply_changes_def set_opt_def)

lemma table_get_update_same:
  "u_id c = None \<Longrightarrow>
   table_get (table_update tbl k c) k = map_option (apply_changes c) (table_get tbl k)"
  unfolding table_get_def table_update_def
  by (induction tbl) (simp_all add: id_apply_changes)

lemma table_get_update_other:
  "u_id c = None \<Longrightarrow> k' \<noteq> k \<Longrightarrow> table_get (table_update tbl k c) k' = table_get tbl k'"
  unfolding table_get_def table_update_def
  by (induction tbl) (simp_all add: id_apply_changes)

text \<open>The record that \<^verbatim>\<open>updatePatient\<close> leaves under the key.\<close>

lemma updatePatient_found:
  assumes "table_get tbl pid = Some p"
  shows "updatePatient tbl pid u h =
           Inr (table_update tbl pid
                  (u\<lparr> u_id := None, u_timestamp := None, u_lastUpdated := Some (now h 1),
                      u_statusChanges :=
                        Some (take 50 (sort_newest_first
                                (or_empty (statusChanges p) @ newChanges p u (now h 0) (randomUUID h)))) \<rparr>))"
  using assms
  by (simp add: updatePatient_def rethrow_def Let_def trackStatusChanges_def newChanges_strip)

lemma updatePatient_missing:
  assumes "table_get tbl pid = None"
  shows "updatePatient tbl pid u h =
           Inl (Error (''Failed to update patient: Patient with ID '' @ pid @ '' not found''))"
  using assms by (simp add: updatePatient_def rethrow_def)

lemma statusChanges_apply_changes:
  "statusChanges (apply_changes (c\<lparr>u_statusChanges := Some cs\<rparr>) p) = Some cs"
  by (simp add: apply_changes_def set_field_def)

lemma updatePatient_statusChanges:
  assumes "table_get tbl pid = Some p"
  shows "\<exists>tbl' p'. updatePatient tbl pid u h = Inr tbl' \<and> table_get tbl' pid = Some p' \<and>
           statusChanges p' =
             Some (take 50 (sort_newest_first
                     (or_empty (statusChanges p) @ newChanges p u (now h 0) (randomUUID h))))"
  using assms
  by (simp add: updatePatient_found table_get_update_same statusChanges_apply_changes)

text \<open>
  C1 (as amended). An update of an existing record stores the 50 newest of the existing
  entries and the synthesized ones. For each tag the synthesized entries are none or
  one: one exactly when the field is present in the partial update, differs from the stored
  value and, for notes and treatmentPlan, is not the empty string. That entry carries the
  previous value (No notes or No treatment plan for an empty or absent one), the
  proposed value and the highlight flag (false for notes only). The tag vitals never
  occurs, and every entry carries the instant read at the start and the record's identifier.
\<close>

theorem updatePatient_synthesizes_changes:
  assumes "table_get tbl pid = Some p"
  shows "(\<exists>tbl' p'. updatePatient tbl pid u h = Inr tbl' \<and> table_get tbl' pid = Some p' \<and>
            statusChanges p' =
              Some (take 50 (sort_newest_first
                      (or_empty (statusChanges p) @ newChanges p u (now h 0) (randomUUID h)))))
       \<and> (\<forall>ct. map summary_of
                  (filter (\<lambda>c. changeType c = ct) (newChanges p u (now h 0) (randomUUID h)))
                = (case spec_change p u ct of None \<Rightarrow> [] | Some x \<Rightarrow> [x]))
       \<and> (\<forall>c \<in> set (newChanges p u (now h 0) (randomUUID h)).
            sc_timestamp c = now h 0 \<and> sc_patientId c = id' p \<and> changeType c \<noteq> ChangeVitals)"
proof (intro conjI)
  show "\<exists>tbl' p'. updatePatient tbl pid u h = Inr tbl' \<and> table_get tbl' pid = Some p' \<and>
            statusChanges p' =
              Some (take 50 (sort_newest_first
                      (or_empty (statusChanges p) @ newChanges p u (now h 0) (randomUUID h))))"
    using assms by (rule updatePatient_statusChanges)
  show "\<forall>ct. map summary_of
                  (filter (\<lambda>c. changeType c = ct) (newChanges p u (now h 0) (randomUUID h)))
                = (case spec_change p u ct of None \<Rightarrow> [] | Some x \<Rightarrow> [x])"
    by (simp add: newChanges_by_type)
  show "\<forall>c \<in> set (newChanges p u (now h 0) (randomUUID h)).
            sc_timestamp c = now h 0 \<and> sc_patientId c = id' p \<and> changeType c \<noteq> ChangeVitals"
  proof
    fix c assume c: "c \<in> set (newChanges p u (now h 0) (randomUUID h))"
    have "filter (\<lambda>c. changeType c = ChangeVitals) (newChanges p u (now h 0) (randomUUID h)) = []"
      using newChanges_by_type [of ChangeVitals p u "now h 0" "randomUUID h"] by simp
    with c have "changeType c \<noteq> ChangeVitals"
      by (auto simp: filter_empty_conv)
    with newChanges_meta [OF c] show
      "sc_timestamp c = now h 0 \<and> sc_patientId c = id' p \<and> changeType c \<noteq> ChangeVitals"
      by simp
  qed
qed

theorem updatePatient_synthesizes_changes_witness:
  "table_get [sample_patient] ''p1'' = Some sample_patient
   \<and> (\<exists>tbl' p'. updatePatient [sample_patient] ''p1'' treat_and_note sample_host = Inr tbl'
         \<and> table_get tbl' ''p1'' = Some p'
         \<and> statusChanges p' =
             Some (take 50 (sort_newest_first
                     (or_empty (statusChanges sample_patient)
                      @ newChanges sample_patient treat_and_note (now sample_host 0)
                          (randomUUID sample_host)))))
   \<and> map summary_of (newChanges sample_patient treat_and_note (now sample_host 0)
                       (randomUUID sample_host))
       = [(''Waiting'', ''In Treatment'', True), (''abc'', ''IV fluids given'', False)]"
proof -
  have h: "table_get [sample_patient] ''p1'' = Some sample_patient"
    by (simp add: table_get_def sample_patient_def)
  have e: "map summary_of (newChanges sample_patient treat_and_note (now sample_host 0)
                       (randomUUID sample_host))
       = [(''Waiting'', ''In Treatment'', True), (''abc'', ''IV fluids given'', False)]"
    by (simp add: newChanges_def summary_of_def sample_patient_def treat_and_note_def
                  no_changes_def or_else_def)
  from updatePatient_synthesizes_changes [OF h, of treat_and_note sample_host] h e
  show ?thesis by blast
qed

text \<open>
  The claim as written fails where the notes are cleared: the empty string is present in
  the partial update and differs from the stored notes, yet no entry is synthesized.
\<close>

theorem updatePatient_cleared_notes_counterexample:
  "notes sample_patient = ''abc''
   \<and> u_notes clear_notes = Some []
   \<and> newChanges sample_patient clear_notes (now sample_host 0) (randomUUID sample_host) = []
   \<and> updatePatient [sample_patient] ''p1'' clear_notes sample_host
       = Inr [sample_patient\<lparr> notes := [], lastUpdated := 2001, statusChanges := Some [] \<rparr>]"
  by (simp add: updatePatient_def rethrow_def table_get_def table_update_def
                trackStatusChanges_def newChanges_def sort_newest_first_def or_empty_def
                apply_changes_def set_opt_def set_field_def
                sample_patient_def sample_host_def clear_notes_def no_changes_def)

subsection \<open>What an update leaves untouched\<close>

lemma apply_changes_frame:
  "u_id c = None \<Longrightarrow> u_timestamp c = None \<Longrightarrow>
     id' (apply_changes c p) = id' p \<and> timestamp (apply_changes c p) = timestamp p"
  by (simp add: apply_changes_def set_opt_def)

lemma table_update_keys:
  "u_id c = None \<Longrightarrow> u_timestamp c = None \<Longrightarrow>
     map id' (table_update tbl k c) = map id' tbl \<and>
     map timestamp (table_update tbl k c) = map timestamp tbl"
  unfolding table_update_def
  by (induction tbl) (simp_all add: apply_changes_frame)

lemma apply_changes_name_only:
  "apply_changes (no_changes\<lparr> u_id := None, u_timestamp := None, u_name := Some x,
                              u_lastUpdated := Some l, u_statusChanges := Some cs \<rparr>) p
     = p\<lparr> name := x, lastUpdated := l, statusChanges := Some cs \<rparr>"
  by (cases p) (simp add: apply_changes_def no_changes_def set_opt_def set_field_def)

lemma newChanges_name_only:
  "newChanges p (no_changes\<lparr> u_id := i, u_timestamp := t, u_name := Some x \<rparr>) ts uuid = []"
  by (simp add: newChanges_def no_changes_def)

lemma updatePatient_strips:
  "updatePatient tbl pid u h = updatePatient tbl pid (u\<lparr> u_id := None, u_timestamp := None \<rparr>) h"
  by (cases "table_get tbl pid") (simp_all add: updatePatient_def Let_def)

text \<open>
  C2 (as amended). An update of an existing record succeeds, and neither the record nor
  any other record of the table changes its identifier or its creation instant: what the
  payload holds for these two fields is dropped, so that the update is the one of the
  payload without them. The payload \<open>{id, timestamp, name: x}\<close> changes the name,
  \<open>lastUpdated\<close> and the field \<open>statusChanges\<close>, which is rewritten with the existing
  entries, newest first and cut to 50 (the empty array when the field was absent); every
  other field keeps its value.
\<close>

theorem updatePatient_keeps_id_and_timestamp:
  assumes "table_get tbl pid = Some p"
  shows "\<exists>tbl' p'. updatePatient tbl pid u h = Inr tbl' \<and> table_get tbl' pid = Some p'
           \<and> id' p' = id' p \<and> timestamp p' = timestamp p
           \<and> map id' tbl' = map id' tbl \<and> map timestamp tbl' = map timestamp tbl
           \<and> updatePatient tbl pid (u\<lparr> u_id := None, u_timestamp := None \<rparr>) h = Inr tbl'
           \<and> (\<forall>i t x. u = no_changes\<lparr> u_id := i, u_timestamp := t, u_name := Some x \<rparr> \<longrightarrow>
                 p' = p\<lparr> name := x, lastUpdated := now h 1,
                        statusChanges :=
                          Some (take 50 (sort_newest_first (or_empty (statusChanges p)))) \<rparr>)"
proof -
  let ?cs = "take 50 (sort_newest_first
               (or_empty (statusChanges p) @ newChanges p u (now h 0) (randomUUID h)))"
  let ?c = "u\<lparr> u_id := None, u_timestamp := None, u_lastUpdated := Some (now h 1),
              u_statusChanges := Some ?cs \<rparr>"
  let ?tbl' = "table_update tbl pid ?c"
  have run: "updatePatient tbl pid u h = Inr ?tbl'"
    using assms by (rule updatePatient_found)
  have get: "table_get ?tbl' pid = Some (apply_changes ?c p)"
    using assms by (simp add: table_get_update_same)
  have keep: "id' (apply_changes ?c p) = id' p \<and> timestamp (apply_changes ?c p) = timestamp p"
    by (rule apply_changes_frame) simp_all
  have keys: "map id' ?tbl' = map id' tbl \<and> map timestamp ?tbl' = map timestamp tbl"
    by (rule table_update_keys) simp_all
  have strip: "updatePatient tbl pid (u\<lparr> u_id := None, u_timestamp := None \<rparr>) h = Inr ?tbl'"
    using run updatePatient_strips [of tbl pid u h] by simp
  have example:
    "\<forall>i t x. u = no_changes\<lparr> u_id := i, u_timestamp := t, u_name := Some x \<rparr> \<longrightarrow>
       apply_changes ?c p
         = p\<lparr> name := x, lastUpdated := now h 1,
               statusChanges := Some (take 50 (sort_newest_first (or_empty (statusChanges p)))) \<rparr>"
  proof (intro allI impI)
    fix i t x
    assume u: "u = no_changes\<lparr> u_id := i, u_timestamp := t, u_name := Some x \<rparr>"
    have "?c = no_changes\<lparr> u_id := None, u_timestamp := None, u_name := Some x,
                 u_lastUpdated := Some (now h 1),
                 u_statusChanges := Some (take 50 (sort_newest_first (or_empty (statusChanges p)))) \<rparr>"
      by (simp add: u newChanges_name_only)
    then show "apply_changes ?c p
         = p\<lparr> name := x, lastUpdated := now h 1,
               statusChanges := Some (take 50 (sort_newest_first (or_empty (statusChanges p)))) \<rparr>"
      by (simp only: apply_changes_name_only)
  qed
  from run get keep keys strip example show ?thesis
    by blast
qed

theorem updatePatient_keeps_id_and_timestamp_witness:
  "table_get [sample_patient] ''p1'' = Some sample_patient
   \<and> (\<exists>tbl' p'. updatePatient [sample_patient] ''p1'' rename_payload sample_host = Inr tbl'
          \<and> table_get tbl' ''p1'' = Some p' \<and> id' p' = ''p1'' \<and> timestamp p' = 1000
          \<and> name p' = ''X'' \<and> lastUpdated p' = 2001)"
proof -
  have h: "table_get [sample_patient] ''p1'' = Some sample_patient"
    by (simp add: table_get_def sample_patient_def)
  from updatePatient_keeps_id_and_timestamp [OF h, of rename_payload sample_host]
  obtain tbl' p' where
    r: "updatePatient [sample_patient] ''p1'' rename_payload sample_host = Inr tbl'"
       "table_get tbl' ''p1'' = Some p'"
       "id' p' = id' sample_patient" "timestamp p' = timestamp sample_patient"
       "\<forall>i t x. rename_payload = no_changes\<lparr> u_id := i, u_timestamp := t, u_name := Some x \<rparr> \<longrightarrow>
          p' = sample_patient\<lparr> name := x, lastUpdated := now sample_host 1,
                 statusChanges :=
                   Some (take 50 (sort_newest_first (or_empty (statusChanges sample_patient)))) \<rparr>"
    by blast
  from r(5) have "p' = sample_patient\<lparr> name := ''X'', lastUpdated := now sample_host 1,
                 statusChanges :=
                   Some (take 50 (sort_newest_first (or_empty (statusChanges sample_patient)))) \<rparr>"
    by (simp add: rename_payload_def)
  then have "name p' = ''X'' \<and> lastUpdated p' = 2001"
    by (simp add: sample_host_def)
  with r(1-4) h show ?thesis
    by (simp add: sample_patient_def)
qed

text \<open>
  The claim as written fails on a record that has no audit trail yet: the update of the
  name alone also gives the record an empty \<open>statusChanges\<close> array.
\<close>

theorem updatePatient_only_name_counterexample:
  "statusChanges sample_patient = None
   \<and> updatePatient [sample_patient] ''p1'' rename_payload sample_host
       = Inr [sample_patient\<lparr> name := ''X'', lastUpdated := 2001, statusChanges := Some [] \<rparr>]"
  by (simp add: updatePatient_def rethrow_def table_get_def table_update_def
                trackStatusChanges_def newChanges_def sort_newest_first_def or_empty_def
                apply_changes_def set_opt_def set_field_def
                sample_patient_def sample_host_def rename_payload_def no_changes_def)

subsection \<open>Deletion\<close>

lemma table_get_delete: "table_get (table_delete tbl k) k = None"
  unfolding table_get_def table_delete_def
  by (induction tbl) simp_all

lemma table_delete_idem: "table_delete (table_delete tbl k) k = table_delete tbl k"
  by (simp add: table_delete_def)

lemma set_getPatients: "set (getPatients tbl) = set tbl"
  by (simp add: getPatients_def table_orderBy_timestamp_def)

lemma deletePatient_eq: "deletePatient tbl pid = Inr (table_delete tbl pid)"
  by (simp add: deletePatient_def rethrow_def table_get_delete)

text \<open>
  C3 (as amended). A deletion succeeds and leaves the table without the key: a read of
  the key finds nothing, the listing holds exactly the other records, and a second deletion
  of the same key succeeds again and changes nothing.
\<close>

theorem deletePatient_removes_record:
  "deletePatient tbl pid = Inr (table_delete tbl pid)
   \<and> table_get (table_delete tbl pid) pid = None
   \<and> set (getPatients (table_delete tbl pid)) = {p \<in> set tbl. id' p \<noteq> pid}
   \<and> (\<forall>p \<in> set (getPatients (table_delete tbl pid)). id' p \<noteq> pid)
   \<and> deletePatient (table_delete tbl pid) pid = Inr (table_delete tbl pid)"
proof -
  have "set (getPatients (table_delete tbl pid)) = {p \<in> set tbl. id' p \<noteq> pid}"
    by (auto simp: set_getPatients table_delete_def)
  then show ?thesis
    by (simp add: deletePatient_eq table_get_delete table_delete_idem)
qed

theorem deletePatient_removes_record_witness:
  "table_get [sample_patient] ''p1'' = Some sample_patient
   \<and> deletePatient [sample_patient] ''p1'' = Inr []
   \<and> table_get [] ''p1'' = None
   \<and> getPatients [] = []"
proof -
  have d: "table_delete [sample_patient] ''p1'' = []"
    by (simp add: table_delete_def sample_patient_def)
  have h: "table_get [sample_patient] ''p1'' = Some sample_patient"
    by (simp add: table_get_def sample_patient_def)
  from deletePatient_removes_record [of "[sample_patient]" "''p1''"] d h
  show ?thesis by (simp add: getPatients_def table_orderBy_timestamp_def)
qed

text \<open>The second deletion of a key returns normally; it does not fail.\<close>

theorem deletePatient_twice_counterexample:
  "deletePatient [sample_patient] ''p1'' = Inr [] \<and> deletePatient [] ''p1'' = Inr []"
  by (simp add: deletePatient_def rethrow_def table_delete_def table_get_def sample_patient_def)

subsection \<open>Retention of status changes\<close>

lemma insort_commute:
  "insort_key f a (insort_last f x ys) = insort_last f x (insort_key f a ys)"
  by (induction ys) auto

lemma sort_snoc: "sort_key f (xs @ [x]) = insort_last f x (sort_key f xs)"
  by (induction xs) (simp_all add: insort_commute)

lemma sort_append_fold: "sort_key f (xs @ ys) = fold (insort_last f) ys (sort_key f xs)"
proof (induction ys arbitrary: xs)
  case Nil
  then show ?case by simp
next
  case (Cons y ys)
  have "sort_key f (xs @ y # ys) = sort_key f ((xs @ [y]) @ ys)"
    by simp
  also have "\<dots> = fold (insort_last f) ys (sort_key f (xs @ [y]))"
    by (rule Cons.IH)
  finally show ?case
    by (simp add: sort_snoc)
qed

lemma take_insort_last:
  "take k (insort_last f x (take k ys)) = take k (insort_last f x ys)"
  by (induction ys arbitrary: k) (auto simp: take_Cons split: nat.splits)

lemma take_fold_insort_last:
  "take k (fold (insort_last f) bs (take k s)) = take k (fold (insort_last f) bs s)"
proof (induction bs arbitrary: s)
  case Nil
  then show ?case by simp
next
  case (Cons b bs)
  have "take k (fold (insort_last f) (b # bs) (take k s))
          = take k (fold (insort_last f) bs (insort_last f b (take k s)))"
    by simp
  also have "\<dots> = take k (fold (insort_last f) bs (take k (insort_last f b (take k s))))"
    by (rule Cons.IH [symmetric])
  also have "\<dots> = take k (fold (insort_last f) bs (take k (insort_last f b s)))"
    by (simp only: take_insort_last)
  also have "\<dots> = take k (fold (insort_last f) bs (insort_last f b s))"
    by (rule Cons.IH)
  finally show ?case by simp
qed

lemma sort_take_sort: "sort_key f (take k (sort_key f xs)) = take k (sort_key f xs)"
  by (rule sort_key_id_if_sorted) (simp add: take_map [symmetric] sorted_wrt_take)

text \<open>Cutting the older part before the next entries arrive loses nothing of the result.\<close>

lemma take_sort_compose:
  "take k (sort_key f (take k (sort_key f xs) @ ys)) = take k (sort_key f (xs @ ys))"
proof -
  have "take k (sort_key f (take k (sort_key f xs) @ ys))
          = take k (fold (insort_last f) ys (take k (sort_key f xs)))"
    by (simp add: sort_append_fold sort_take_sort)
  also have "\<dots> = take k (fold (insort_last f) ys (sort_key f xs))"
    by (rule take_fold_insort_last)
  finally show ?thesis
    by (simp add: sort_append_fold)
qed

lemma newest_of_take_sort: "newest_of k (take k (sort_newest_first xs)) xs"
proof -
  let ?S = "sort_newest_first xs"
  have sorted_S: "sorted_wrt (\<lambda>a b. sc_timestamp a \<ge> sc_timestamp b) ?S"
  proof -
    have "sorted (map (\<lambda>c. - sc_timestamp c) ?S)"
      by (simp add: sort_newest_first_def)
    then show ?thesis
      by (simp add: sorted_map)
  qed
  have split: "?S = take k ?S @ drop k ?S"
    by simp
  have mset_S: "mset xs = mset (take k ?S) + mset (drop k ?S)"
  proof -
    have "mset (take k ?S) + mset (drop k ?S) = mset (take k ?S @ drop k ?S)"
      by (simp only: mset_append)
    also have "\<dots> = mset ?S"
      by (simp only: append_take_drop_id)
    also have "\<dots> = mset xs"
      by (simp add: sort_newest_first_def)
    finally show ?thesis
      by (rule sym)
  qed
  have 1: "sorted_wrt (\<lambda>a b. sc_timestamp a \<ge> sc_timestamp b) (take k ?S)"
    using sorted_S by (rule sorted_wrt_take)
  have 2: "length (take k ?S) = min k (length xs)"
    by (simp add: sort_newest_first_def min.commute)
  have 3: "mset (take k ?S) \<subseteq># mset xs"
    by (simp add: mset_S)
  have 4: "\<forall>a \<in> set (take k ?S). \<forall>d \<in># mset xs - mset (take k ?S).
             sc_timestamp d \<le> sc_timestamp a"
  proof (intro ballI)
    fix a d
    assume a: "a \<in> set (take k ?S)" and d: "d \<in># mset xs - mset (take k ?S)"
    from d have d': "d \<in> set (drop k ?S)"
      by (simp add: mset_S)
    have "sorted_wrt (\<lambda>a b. sc_timestamp a \<ge> sc_timestamp b) (take k ?S @ drop k ?S)"
      using sorted_S by simp
    then have "\<forall>x \<in> set (take k ?S). \<forall>y \<in> set (drop k ?S). sc_timestamp y \<le> sc_timestamp x"
      unfolding sorted_wrt_append by blast
    with a d' show "sc_timestamp d \<le> sc_timestamp a"
      by blast
  qed
  from 1 2 3 4 show ?thesis
    unfolding newest_of_def by blast
qed

lemma updatePatient_record:
  assumes "table_get tbl pid = Some p"
  shows "\<exists>tbl'. updatePatient tbl pid u h = Inr tbl'
           \<and> table_get tbl' pid = Some (updated_record p u h)"
  using assms
  by (simp add: updatePatient_def rethrow_def Let_def table_get_update_same updated_record_def)

lemma statusChanges_updated_record:
  "statusChanges (updated_record p u h) =
     Some (take 50 (sort_newest_first
             (or_empty (statusChanges p) @ newChanges p u (now h 0) (randomUUID h))))"
  by (simp add: updated_record_def statusChanges_apply_changes trackStatusChanges_def
                newChanges_strip)

text \<open>
  After a run of one update or more the record holds the 50 newest of the entries it
  had before the run and of all the entries synthesized in the run.
\<close>

lemma updatePatients_statusChanges:
  assumes "table_get tbl pid = Some p" and "steps \<noteq> []"
  shows "\<exists>tbl' p'. updatePatients tbl pid steps = Inr tbl' \<and> table_get tbl' pid = Some p'
           \<and> statusChanges p' =
               Some (take 50 (sort_newest_first
                       (or_empty (statusChanges p) @ concat (synthesized p steps))))"
  using assms
proof (induction steps arbitrary: tbl p)
  case Nil
  then show ?case by simp
next
  case (Cons step steps)
  obtain u h where step: "step = (u, h)"
    by (cases step)
  let ?p1 = "updated_record p u h"
  let ?n1 = "newChanges p u (now h 0) (randomUUID h)"
  from updatePatient_record [OF Cons.prems(1), of u h]
  obtain tbl1 where
    run1: "updatePatient tbl pid u h = Inr tbl1" and get1: "table_get tbl1 pid = Some ?p1"
    by blast
  show ?case
  proof (cases "steps = []")
    case True
    with run1 get1 show ?thesis
      by (simp add: step statusChanges_updated_record)
  next
    case False
    from Cons.IH [OF get1 False]
    obtain tbl' p' where
      run: "updatePatients tbl1 pid steps = Inr tbl'" and get: "table_get tbl' pid = Some p'"
      and cs: "statusChanges p' =
                 Some (take 50 (sort_newest_first
                         (or_empty (statusChanges ?p1) @ concat (synthesized ?p1 steps))))"
      by blast
    have "take 50 (sort_newest_first
                     (or_empty (statusChanges ?p1) @ concat (synthesized ?p1 steps)))
            = take 50 (sort_newest_first
                         ((or_empty (statusChanges p) @ ?n1) @ concat (synthesized ?p1 steps)))"
      by (simp only: statusChanges_updated_record or_empty_def option.case
                     sort_newest_first_def take_sort_compose)
    with cs have "statusChanges p' =
                 Some (take 50 (sort_newest_first
                         (or_empty (statusChanges p) @ concat (synthesized p (step # steps)))))"
      by (simp add: step)
    moreover from run1 run have "updatePatients tbl pid (step # steps) = Inr tbl'"
      by (simp add: step)
    ultimately show ?thesis
      using get by blast
  qed
qed

lemma length_concat_singletons:
  "\<forall>ns \<in> set nss. length ns = 1 \<Longrightarrow> length (concat nss) = length nss"
  by (induction nss) simp_all

lemma length_synthesized: "length (synthesized p steps) = length steps"
  by (induction p steps rule: synthesized.induct) simp_all

text \<open>
  C5. After an update of an existing record its \<open>statusChanges\<close> are the 50 most
  recently timestamped of the entries it had and the newly synthesized ones, newest first:
  ordered by descending timestamp, at most 50, and nothing dropped is newer than anything
  kept. After 60 updates in a row that synthesize one entry each, the array has exactly
  50 entries, the 50 most recently timestamped of all the entries the record had before and
  the 60 new ones.
\<close>

theorem updatePatient_keeps_50_newest:
  assumes "table_get tbl pid = Some p"
  shows "(\<exists>tbl' p' cs. updatePatient tbl pid u h = Inr tbl' \<and> table_get tbl' pid = Some p'
            \<and> statusChanges p' = Some cs \<and> length cs \<le> 50
            \<and> newest_of 50 cs
                 (or_empty (statusChanges p) @ newChanges p u (now h 0) (randomUUID h)))
       \<and> (\<forall>steps. length steps = 60 \<and> (\<forall>ns \<in> set (synthesized p steps). length ns = 1) \<longrightarrow>
            (\<exists>tbl' p' cs. updatePatients tbl pid steps = Inr tbl' \<and> table_get tbl' pid = Some p'
               \<and> statusChanges p' = Some cs \<and> length cs = 50
               \<and> newest_of 50 cs (or_empty (statusChanges p) @ concat (synthesized p steps))))"
proof (intro conjI allI impI)
  let ?every = "or_empty (statusChanges p) @ newChanges p u (now h 0) (randomUUID h)"
  from updatePatient_statusChanges [OF assms, of u h]
  obtain tbl' p' where
    "updatePatient tbl pid u h = Inr tbl'" "table_get tbl' pid = Some p'"
    "statusChanges p' = Some (take 50 (sort_newest_first ?every))"
    by blast
  moreover have "length (take 50 (sort_newest_first ?every)) \<le> 50"
    by simp
  moreover have "newest_of 50 (take 50 (sort_newest_first ?every)) ?every"
    by (rule newest_of_take_sort)
  ultimately show
    "\<exists>tbl' p' cs. updatePatient tbl pid u h = Inr tbl' \<and> table_get tbl' pid = Some p'
        \<and> statusChanges p' = Some cs \<and> length cs \<le> 50 \<and> newest_of 50 cs ?every"
    by blast
next
  fix steps
  assume a: "length steps = 60 \<and> (\<forall>ns \<in> set (synthesized p steps). length ns = 1)"
  let ?every = "or_empty (statusChanges p) @ concat (synthesized p steps)"
  from a have "steps \<noteq> []"
    by auto
  from updatePatients_statusChanges [OF assms this]
  obtain tbl' p' where
    "updatePatients tbl pid steps = Inr tbl'" "table_get tbl' pid = Some p'"
    "statusChanges p' = Some (take 50 (sort_newest_first ?every))"
    by blast
  moreover have "length (concat (synthesized p steps)) = 60"
    using a by (simp add: length_concat_singletons length_synthesized)
  then have "length (take 50 (sort_newest_first ?every)) = 50"
    by (simp add: sort_newest_first_def)
  moreover have "newest_of 50 (take 50 (sort_newest_first ?every)) ?every"
    by (rule newest_of_take_sort)
  ultimately show
    "\<exists>tbl' p' cs. updatePatients tbl pid steps = Inr tbl' \<and> table_get tbl' pid = Some p'
        \<and> statusChanges p' = Some cs \<and> length cs = 50 \<and> newest_of 50 cs ?every"
    by blast
qed

lemma status_updated_record:
  "status (updated_record p u h) = set_opt (u_status u) (status p)"
  by (simp add: updated_record_def apply_changes_def)

lemma toggle_synthesizes_one:
  "status p = (if even i then Waiting else InTreatment) \<Longrightarrow>
     \<forall>ns \<in> set (synthesized p (map toggle_step [i..<i + k])). length ns = 1"
proof (induction k arbitrary: p i)
  case 0
  then show ?case by simp
next
  case (Suc k)
  obtain u h where step: "toggle_step i = (u, h)"
    by (cases "toggle_step i")
  then have u: "u = no_changes\<lparr> u_status := Some (if even i then InTreatment else Waiting) \<rparr>"
    by (simp add: toggle_step_def)
  have one: "length (newChanges p u (now h 0) (randomUUID h)) = 1"
    using Suc.prems by (simp add: u newChanges_def no_changes_def)
  have "status (updated_record p u h) = (if even (Suc i) then Waiting else InTreatment)"
    by (simp add: status_updated_record u set_opt_def)
  from Suc.IH [OF this]
  have rest: "\<forall>ns \<in> set (synthesized (updated_record p u h) (map toggle_step [Suc i..<Suc i + k])).
                length ns = 1" .
  have "[i..<i + Suc k] = i # [Suc i..<Suc i + k]"
    by (simp add: upt_rec)
  with one rest show ?case
    by (simp add: step)
qed

theorem updatePatient_keeps_50_newest_witness:
  "table_get [sample_patient] ''p1'' = Some sample_patient
   \<and> length (toggle_steps 60) = 60
   \<and> list_all (\<lambda>ns. length ns = 1) (synthesized sample_patient (toggle_steps 60))
   \<and> (\<exists>tbl' p' cs. updatePatients [sample_patient] ''p1'' (toggle_steps 60) = Inr tbl'
         \<and> table_get tbl' ''p1'' = Some p' \<and> statusChanges p' = Some cs \<and> length cs = 50
         \<and> sorted_wrt (\<lambda>a b. sc_timestamp a \<ge> sc_timestamp b) cs)"
proof -
  have h: "table_get [sample_patient] ''p1'' = Some sample_patient"
    by (simp add: table_get_def sample_patient_def)
  have l: "length (toggle_steps 60) = 60"
    by (simp add: toggle_steps_def)
  have "status sample_patient = (if even (0::nat) then Waiting else InTreatment)"
    by (simp add: sample_patient_def)
  from toggle_synthesizes_one [OF this, of 60]
  have o: "\<forall>ns \<in> set (synthesized sample_patient (toggle_steps 60)). length ns = 1"
    by (simp add: toggle_steps_def)
  from updatePatient_keeps_50_newest [OF h] l o
  obtain tbl' p' cs where
    "updatePatients [sample_patient] ''p1'' (toggle_steps 60) = Inr tbl'"
    "table_get tbl' ''p1'' = Some p'" "statusChanges p' = Some cs" "length cs = 50"
    "newest_of 50 cs
       (or_empty (statusChanges sample_patient)
        @ concat (synthesized sample_patient (toggle_steps 60)))"
    by blast
  moreover from this(5) have "sorted_wrt (\<lambda>a b. sc_timestamp a \<ge> sc_timestamp b) cs"
    by (simp add: newest_of_def)
  moreover from o have
    "list_all (\<lambda>ns. length ns = 1) (synthesized sample_patient (toggle_steps 60))"
    by (simp add: list_all_iff)
  ultimately show ?thesis
    using h l by blast
qed

subsection \<open>Handover notes\<close>

lemma apply_changes_handover:
  "apply_changes (no_changes\<lparr> u_handoverNotes := Some ns, u_lastUpdated := Some l \<rparr>) p
     = p\<lparr> handoverNotes := Some ns, lastUpdated := l \<rparr>"
  by (cases p) (simp add: apply_changes_def no_changes_def set_opt_def set_field_def)

lemma u_id_handover_changes:
  "u_id (no_changes\<lparr> u_handoverNotes := Some ns, u_lastUpdated := Some l \<rparr>) = None"
  by (simp add: no_changes_def)

lemma addHandoverNote_missing:
  assumes "table_get tbl pid = None"
  shows "addHandoverNote tbl pid note h =
           Inl (Error (''Failed to add handover note: Patient with ID '' @ pid @ '' not found''))"
  using assms by (simp add: addHandoverNote_def rethrow_def)

lemma addHandoverNote_found:
  assumes "table_get tbl pid = Some p"
  shows "\<exists>tbl'. addHandoverNote tbl pid note h = Inr tbl'
           \<and> table_get tbl' pid =
               Some (p\<lparr> handoverNotes :=
                          Some (take 20 (newHandoverNote pid note h # or_empty (handoverNotes p))),
                        lastUpdated := now h 1 \<rparr>)
           \<and> (\<forall>k. k \<noteq> pid \<longrightarrow> table_get tbl' k = table_get tbl k)"
  using assms
  by (simp add: addHandoverNote_def rethrow_def Let_def table_get_update_same
                table_get_update_other u_id_handover_changes apply_changes_handover)

lemma take_append_take: "take k (xs @ take k ys) = take k (xs @ ys)"
  by (simp add: min_def)

lemma addHandoverNotes_run:
  assumes "table_get tbl pid = Some p" and "steps \<noteq> []"
  shows "\<exists>tbl' p'. addHandoverNotes tbl pid steps = Inr tbl' \<and> table_get tbl' pid = Some p'
           \<and> handoverNotes p' =
               Some (take 20 (rev (created_notes pid steps) @ or_empty (handoverNotes p)))
           \<and> statusChanges p' = statusChanges p"
  using assms
proof (induction steps arbitrary: tbl p)
  case Nil
  then show ?case by simp
next
  case (Cons step steps)
  obtain n h where step: "step = (n, h)"
    by (cases step)
  let ?m = "newHandoverNote pid n h"
  let ?p1 = "p\<lparr> handoverNotes := Some (take 20 (?m # or_empty (handoverNotes p))),
                 lastUpdated := now h 1 \<rparr>"
  from addHandoverNote_found [OF Cons.prems(1), of n h]
  obtain tbl1 where
    run1: "addHandoverNote tbl pid n h = Inr tbl1" and get1: "table_get tbl1 pid = Some ?p1"
    by blast
  show ?case
  proof (cases "steps = []")
    case True
    with run1 get1 show ?thesis
      by (simp add: step created_notes_def)
  next
    case False
    from Cons.IH [OF get1 False]
    obtain tbl' p' where
      run: "addHandoverNotes tbl1 pid steps = Inr tbl'" and get: "table_get tbl' pid = Some p'"
      and ns: "handoverNotes p' =
                 Some (take 20 (rev (created_notes pid steps) @ or_empty (handoverNotes ?p1)))"
      and cs: "statusChanges p' = statusChanges ?p1"
      by blast
    have "take 20 (rev (created_notes pid steps) @ or_empty (handoverNotes ?p1))
            = take 20 (rev (created_notes pid steps) @ take 20 (?m # or_empty (handoverNotes p)))"
      by (simp add: or_empty_def)
    also have "\<dots> = take 20 (rev (created_notes pid steps) @ ?m # or_empty (handoverNotes p))"
      by (rule take_append_take)
    also have "\<dots> = take 20 (rev (created_notes pid (step # steps)) @ or_empty (handoverNotes p))"
      by (simp add: step created_notes_def)
    finally have "handoverNotes p' =
        Some (take 20 (rev (created_notes pid (step # steps)) @ or_empty (handoverNotes p)))"
      using ns by simp
    moreover from run1 run have "addHandoverNotes tbl pid (step # steps) = Inr tbl'"
      by (simp add: step)
    moreover from cs have "statusChanges p' = statusChanges p"
      by simp
    ultimately show ?thesis
      using get by blast
  qed
qed

lemma take_rev_25: "length xs = 25 \<Longrightarrow> take 20 (rev xs @ ys) = rev (drop 5 xs)"
  by (simp add: take_rev)

text \<open>
  C6. \<^verbatim>\<open>addHandoverNote\<close> fails with a not-found error when the table has no record
  under the key. Otherwise it succeeds; the new note carries the caller's fields, the key,
  a new identifier and the instant read; the record's notes become the new note followed
  by the existing ones, cut to 20, and \<open>lastUpdated\<close> becomes the instant read last;
  no other field of the record (so not \<open>statusChanges\<close>) and no other record changes.
  After 25 notes added in a row the record holds the 20 added last, the newest first.
\<close>

theorem addHandoverNote_prepends_and_bounds:
  "(table_get tbl pid = None \<longrightarrow>
      addHandoverNote tbl pid note h =
        Inl (Error (''Failed to add handover note: Patient with ID '' @ pid @ '' not found'')))
   \<and> (\<forall>p. table_get tbl pid = Some p \<longrightarrow>
        (\<exists>tbl'. addHandoverNote tbl pid note h = Inr tbl'
           \<and> table_get tbl' pid =
               Some (p\<lparr> handoverNotes :=
                          Some (take 20 (newHandoverNote pid note h # or_empty (handoverNotes p))),
                        lastUpdated := now h 1 \<rparr>)
           \<and> (\<forall>k. k \<noteq> pid \<longrightarrow> table_get tbl' k = table_get tbl k)))
   \<and> HandoverNoteData.truncate (newHandoverNote pid note h) = note
   \<and> hn_id (newHandoverNote pid note h) = randomUUID h 0
   \<and> hn_patientId (newHandoverNote pid note h) = pid
   \<and> hn_timestamp (newHandoverNote pid note h) = now h 0
   \<and> (\<forall>p steps. table_get tbl pid = Some p \<and> length steps = 25 \<longrightarrow>
        (\<exists>tbl' p'. addHandoverNotes tbl pid steps = Inr tbl' \<and> table_get tbl' pid = Some p'
           \<and> handoverNotes p' = Some (rev (drop 5 (created_notes pid steps)))
           \<and> statusChanges p' = statusChanges p))"
proof (intro conjI allI impI)
  assume "table_get tbl pid = None"
  then show "addHandoverNote tbl pid note h =
        Inl (Error (''Failed to add handover note: Patient with ID '' @ pid @ '' not found''))"
    by (rule addHandoverNote_missing)
next
  fix p assume "table_get tbl pid = Some p"
  then show "\<exists>tbl'. addHandoverNote tbl pid note h = Inr tbl'
           \<and> table_get tbl' pid =
               Some (p\<lparr> handoverNotes :=
                          Some (take 20 (newHandoverNote pid note h # or_empty (handoverNotes p))),
                        lastUpdated := now h 1 \<rparr>)
           \<and> (\<forall>k. k \<noteq> pid \<longrightarrow> table_get tbl' k = table_get tbl k)"
    by (rule addHandoverNote_found)
next
  show "HandoverNoteData.truncate (newHandoverNote pid note h) = note"
    by (cases "note") (simp add: newHandoverNote_def HandoverNoteData.truncate_def)
  show "hn_id (newHandoverNote pid note h) = randomUUID h 0"
    by (simp add: newHandoverNote_def)
  show "hn_patientId (newHandoverNote pid note h) = pid"
    by (simp add: newHandoverNote_def)
  show "hn_timestamp (newHandoverNote pid note h) = now h 0"
    by (simp add: newHandoverNote_def)
next
  fix p and steps :: "(HandoverNoteData \<times> host) list"
  assume a: "table_get tbl pid = Some p \<and> length steps = 25"
  then have "steps \<noteq> []"
    by auto
  with a addHandoverNotes_run [of tbl pid p steps]
  obtain tbl' p' where
    "addHandoverNotes tbl pid steps = Inr tbl'" "table_get tbl' pid = Some p'"
    "handoverNotes p' = Some (take 20 (rev (created_notes pid steps) @ or_empty (handoverNotes p)))"
    "statusChanges p' = statusChanges p"
    by blast
  moreover have "length (created_notes pid steps) = 25"
    using a by (simp add: created_notes_def)
  then have "take 20 (rev (created_notes pid steps) @ or_empty (handoverNotes p))
                   = rev (drop 5 (created_notes pid steps))"
    by (rule take_rev_25)
  ultimately show "\<exists>tbl' p'. addHandoverNotes tbl pid steps = Inr tbl' \<and> table_get tbl' pid = Some p'
           \<and> handoverNotes p' = Some (rev (drop 5 (created_notes pid steps)))
           \<and> statusChanges p' = statusChanges p"
    by simp
qed

theorem addHandoverNote_prepends_and_bounds_witness:
  "table_get [sample_patient] ''p1'' = Some sample_patient
   \<and> table_get [sample_patient] ''p2'' = None
   \<and> length (handover_steps 25) = 25
   \<and> addHandoverNote [sample_patient] ''p2'' (fst (handover_step 0)) sample_host =
        Inl (Error ''Failed to add handover note: Patient with ID p2 not found'')
   \<and> (\<exists>tbl' p'. addHandoverNotes [sample_patient] ''p1'' (handover_steps 25) = Inr tbl'
         \<and> table_get tbl' ''p1'' = Some p'
         \<and> handoverNotes p' = Some (rev (drop 5 (created_notes ''p1'' (handover_steps 25))))
         \<and> statusChanges p' = None)"
proof -
  have h: "table_get [sample_patient] ''p1'' = Some sample_patient"
    by (simp add: table_get_def sample_patient_def)
  have m: "table_get [sample_patient] ''p2'' = None"
    by (simp add: table_get_def sample_patient_def)
  have l: "length (handover_steps 25) = 25"
    by (simp add: handover_steps_def)
  have s: "statusChanges sample_patient = None"
    by (simp add: sample_patient_def)
  note missing = addHandoverNote_prepends_and_bounds
         [of "[sample_patient]" "''p2''" "fst (handover_step 0)" sample_host, THEN conjunct1]
  from missing m
  have 1: "addHandoverNote [sample_patient] ''p2'' (fst (handover_step 0)) sample_host =
        Inl (Error ''Failed to add handover note: Patient with ID p2 not found'')"
    by simp
  note runs = addHandoverNote_prepends_and_bounds
         [of "[sample_patient]" "''p1''" "fst (handover_step 0)" sample_host,
          THEN conjunct2, THEN conjunct2, THEN conjunct2, THEN conjunct2, THEN conjunct2,
          THEN conjunct2, THEN spec, THEN spec, THEN mp, OF conjI, OF h l]
  from runs
  have 2: "\<exists>tbl' p'. addHandoverNotes [sample_patient] ''p1'' (handover_steps 25) = Inr tbl'
         \<and> table_get tbl' ''p1'' = Some p'
         \<and> handoverNotes p' = Some (rev (drop 5 (created_notes ''p1'' (handover_steps 25))))
         \<and> statusChanges p' = None"
    by (simp only: s)
  from h m l 1 2 show ?thesis
    by (intro conjI)
qed

subsection \<open>Creation\<close>

lemma table_get_append:
  "table_get (tbl @ [p]) k =
     (case table_get tbl k of Some q \<Rightarrow> Some q | None \<Rightarrow> if id' p = k then Some p else None)"
  unfolding table_get_def
  by (induction tbl) simp_all

lemma addPatient_fresh:
  assumes "table_get tbl (randomUUID h 0) = None"
  shows "addPatient tbl patient h =
           Inr (randomUUID h 0,
                tbl @ [PatientData.extend
                         (patient\<lparr> status := Waiting, notes := [], lastUpdated := now h 0 \<rparr>)
                         (Patient.fields (randomUUID h 0) (now h 0))])"
  using assms
  by (cases patient)
     (simp add: addPatient_def rethrow_def table_add_def Let_def PatientData.extend_def
                Patient.fields_def)

lemma addPatient_collision:
  assumes "table_get tbl (randomUUID h 0) = Some q"
  shows "addPatient tbl patient h =
           Inl (Error ''Failed to add patient: Key already exists in the object store.'')"
  using assms
  by (simp add: addPatient_def rethrow_def table_add_def Let_def)

text \<open>
  C7. When the identifier drawn is not yet a key of the table, \<^verbatim>\<open>addPatient\<close>
  succeeds and returns it; a read of that key then finds a record whose fields are those
  of the input except that the status is Waiting, the notes are empty and \<open>lastUpdated\<close>
  is the creation instant, together with the identifier drawn and the instant read as
  \<open>timestamp\<close>; the records under other keys are as before.
\<close>

theorem addPatient_then_get:
  assumes "table_get tbl (randomUUID h 0) = None"
  shows "\<exists>tbl' p'. addPatient tbl patient h = Inr (randomUUID h 0, tbl')
           \<and> table_get tbl' (randomUUID h 0) = Some p'
           \<and> PatientData.truncate p'
               = patient\<lparr> status := Waiting, notes := [], lastUpdated := now h 0 \<rparr>
           \<and> id' p' = randomUUID h 0 \<and> timestamp p' = now h 0
           \<and> lastUpdated p' = timestamp p' \<and> status p' = Waiting \<and> notes p' = []
           \<and> (\<forall>k. k \<noteq> randomUUID h 0 \<longrightarrow> table_get tbl' k = table_get tbl k)"
proof -
  let ?p = "PatientData.extend
              (patient\<lparr> status := Waiting, notes := [], lastUpdated := now h 0 \<rparr>)
              (Patient.fields (randomUUID h 0) (now h 0))"
  have run: "addPatient tbl patient h = Inr (randomUUID h 0, tbl @ [?p])"
    using assms by (rule addPatient_fresh)
  have fields: "PatientData.truncate ?p
                  = patient\<lparr> status := Waiting, notes := [], lastUpdated := now h 0 \<rparr>
                \<and> id' ?p = randomUUID h 0 \<and> timestamp ?p = now h 0
                \<and> lastUpdated ?p = timestamp ?p \<and> status ?p = Waiting \<and> notes ?p = []"
    by (cases patient)
       (simp add: PatientData.extend_def PatientData.truncate_def Patient.fields_def)
  have get: "table_get (tbl @ [?p]) (randomUUID h 0) = Some ?p"
    using assms fields by (simp add: table_get_append)
  have others: "\<forall>k. k \<noteq> randomUUID h 0 \<longrightarrow> table_get (tbl @ [?p]) k = table_get tbl k"
    using fields by (simp add: table_get_append split: option.split)
  from run get fields others show ?thesis
    by blast
qed

theorem addPatient_then_get_witness:
  "table_get [sample_patient] (randomUUID sample_host 0) = None
   \<and> (\<exists>tbl' p'. addPatient [sample_patient] new_patient sample_host = Inr (''uuid-0'', tbl')
         \<and> table_get tbl' ''uuid-0'' = Some p'
         \<and> name p' = ''Omar Khalil'' \<and> status p' = Waiting \<and> notes p' = []
         \<and> id' p' = ''uuid-0'' \<and> timestamp p' = 2000 \<and> lastUpdated p' = 2000
         \<and> table_get tbl' ''p1'' = Some sample_patient)"
proof -
  have u: "randomUUID sample_host 0 = ''uuid-0''" and n: "now sample_host 0 = 2000"
    by (simp_all add: sample_host_def dec.simps digit_char_def)
  have f: "table_get [sample_patient] (randomUUID sample_host 0) = None"
    by (simp add: u table_get_def sample_patient_def)
  have h: "table_get [sample_patient] ''p1'' = Some sample_patient"
    by (simp add: table_get_def sample_patient_def)
  from addPatient_then_get [OF f, of new_patient]
  obtain tbl' p' where
    r: "addPatient [sample_patient] new_patient sample_host = Inr (randomUUID sample_host 0, tbl')"
       "table_get tbl' (randomUUID sample_host 0) = Some p'"
       "PatientData.truncate p'
          = new_patient\<lparr> status := Waiting, notes := [], lastUpdated := now sample_host 0 \<rparr>"
       "id' p' = randomUUID sample_host 0" "timestamp p' = now sample_host 0"
       "lastUpdated p' = timestamp p'" "status p' = Waiting" "notes p' = []"
       "\<forall>k. k \<noteq> randomUUID sample_host 0 \<longrightarrow> table_get tbl' k = table_get [sample_patient] k"
    by blast
  from r(3) have "name (PatientData.truncate p') = ''Omar Khalil''"
    by (simp add: new_patient_def)
  then have nm: "name p' = ''Omar Khalil''"
    by (simp add: PatientData.truncate_def)
  from r(9) h have "table_get tbl' ''p1'' = Some sample_patient"
    by (simp add: u)
  with r nm f show ?thesis
    by (simp add: u n)
qed

subsection \<open>Listing and search\<close>

lemma str_includes_sublist: "str_includes s t \<longleftrightarrow> sublist t s"
  by (induction s) (simp_all add: sublist_Cons_right)








lemma getPatients_sorted:
  "sorted_wrt (\<lambda>a b. timestamp a \<ge> timestamp b) (getPatients tbl)"
proof -
  let ?key = "\<lambda>p. (timestamp p, id' p)"
  have "sorted (map ?key (sort_key ?key tbl))"
    by simp
  then have "sorted_wrt (\<lambda>a b. ?key a \<le> ?key b) (sort_key ?key tbl)"
    by (simp only: sorted_map)
  then have "sorted_wrt (\<lambda>a b. ?key b \<le> ?key a) (rev (sort_key ?key tbl))"
    by (simp only: sorted_wrt_rev)
  moreover have "\<And>a b. ?key b \<le> ?key a \<Longrightarrow> timestamp a \<ge> timestamp b"
    by (auto simp: less_eq_prod_def)
  ultimately show ?thesis
    unfolding getPatients_def table_orderBy_timestamp_def
    by (rule sorted_wrt_mono_rel [rotated]) blast
qed


lemma getPatients_sample:
  "getPatients sample_table = [second_patient, third_patient, sample_patient]"
  by (simp add: getPatients_def table_orderBy_timestamp_def sample_table_def
                sample_patient_def second_patient_def third_patient_def)



text \<open>
  C10. The search for the empty term returns the whole listing, every stored record,
  newest first.
\<close>

theorem searchPatients_empty_term:
  "searchPatients tbl [] = getPatients tbl
   \<and> set (searchPatients tbl []) = set tbl
   \<and> length (searchPatients tbl []) = length tbl
   \<and> sorted_wrt (\<lambda>a b. timestamp a \<ge> timestamp b) (searchPatients tbl [])"
proof -
  have "\<And>s. str_includes s []"
    by (simp add: str_includes_sublist)
  then have e: "searchPatients tbl [] = getPatients tbl"
    by (simp add: searchPatients_def toLowerCase_def)
  have "length (getPatients tbl) = length tbl"
    by (simp add: getPatients_def table_orderBy_timestamp_def)
  with e show ?thesis
    by (simp add: set_getPatients getPatients_sorted)
qed

theorem searchPatients_empty_term_witness:
  "searchPatients sample_table [] = [second_patient, third_patient, sample_patient]
   \<and> map timestamp (searchPatients sample_table []) = [1500, 1200, 1000]"
proof -
  from searchPatients_empty_term [of sample_table]
  have e: "searchPatients sample_table [] = [second_patient, third_patient, sample_patient]"
    by (simp only: getPatients_sample)
  have t: "map timestamp [second_patient, third_patient, sample_patient] = [1500, 1200, 1000]"
    by (simp add: sample_patient_def second_patient_def third_patient_def)
  from e t show ?thesis
    by (simp only:)
qed

subsection \<open>Export to delimited text\<close>

lemma str_includes_single: "str_includes v [c] \<longleftrightarrow> c \<in> set v"
  by (induction v) (auto simp: prefix_Cons)

lemma escapeCSVValue_cell: "escapeCSVValue v = cell v"
  unfolding escapeCSVValue_def cell_def needs_quoting_def quoted_def replace_all_def
            str_includes_single dquote_def line_feed_def carriage_return_def
  by auto

lemma patientToCSVRow_valid:
  "valid_time (timestamp p) \<Longrightarrow> patientToCSVRow p = Inr (csv_row p)"
  by (simp add: patientToCSVRow_def formatTimestamp_def toISOString_def csv_row_def
                escapeCSVValue_cell)

lemma map_throwing_all:
  "\<forall>x \<in> set xs. f x = Inr (g x) \<Longrightarrow> map_throwing f xs = Inr (map g xs)"
  by (induction xs) simp_all

lemma getPatients_Nil_iff: "getPatients tbl = [] \<longleftrightarrow> tbl = []"
proof -
  have "length (getPatients tbl) = length tbl"
    by (simp add: getPatients_def table_orderBy_timestamp_def)
  then show ?thesis
    by (metis length_0_conv)
qed

lemma join_headers: "join '','' headers = header_row"
  by (simp add: headers_def header_row_def)

lemma digit_char_set: "n < 10 \<Longrightarrow> digit_char n \<in> set ''0123456789''"
  unfolding digit_char_def by (rule nth_mem) simp

lemma dec_digits: "set (dec n) \<subseteq> set ''0123456789''"
proof (induction n rule: dec.induct)
  case (1 n)
  show ?case
  proof (cases "n < 10")
    case True
    then show ?thesis
      using digit_char_set [of n] by (subst dec.simps) simp
  next
    case False
    then have "set (dec (n div 10)) \<subseteq> set ''0123456789''"
      by (rule "1.IH")
    moreover have "digit_char (n mod 10) \<in> set ''0123456789''"
      by (rule digit_char_set) simp
    ultimately show ?thesis
      using False by (subst dec.simps) simp
  qed
qed


lemma digit_not_special:
  "c \<in> set ''0123456789'' \<Longrightarrow>
     c \<noteq> CHR '','' \<and> c \<noteq> CHR 0x22 \<and> c \<noteq> CHR 0x0A \<and> c \<noteq> CHR 0x0D"
  by auto

lemma in_number_toString:
  assumes "c \<in> set (number_toString a)"
  shows "c = CHR ''-'' \<or> c \<in> set ''0123456789''"
proof (cases "a < 0")
  case True
  with assms have "c = CHR ''-'' \<or> c \<in> set (dec (nat (- a)))"
    by (simp add: number_toString_def)
  then show ?thesis
    using dec_digits [of "nat (- a)"] by blast
next
  case False
  with assms have "c \<in> set (dec (nat a))"
    by (simp add: number_toString_def)
  then show ?thesis
    using dec_digits [of "nat a"] by blast
qed

lemma number_toString_plain: "\<not> needs_quoting (number_toString a)"
proof
  assume "needs_quoting (number_toString a)"
  then obtain c where c: "c \<in> set (number_toString a)"
    and s: "c = CHR '','' \<or> c = CHR 0x22 \<or> c = CHR 0x0A \<or> c = CHR 0x0D"
    unfolding needs_quoting_def dquote_def line_feed_def carriage_return_def by blast
  from in_number_toString [OF c] show False
  proof
    assume "c = CHR ''-''"
    with s show False by simp
  next
    assume "c \<in> set ''0123456789''"
    from digit_not_special [OF this] s show False by blast
  qed
qed

lemma exportToCSV_empty: "exportToCSV [] = Inr ''No patient data available for export''"
  by (simp add: exportToCSV_def rethrow_def getPatients_def table_orderBy_timestamp_def)

lemma exportToCSV_rows:
  assumes "tbl \<noteq> []" and "\<forall>p \<in> set tbl. valid_time (timestamp p)"
  shows "exportToCSV tbl = Inr (join [line_feed] (header_row # map csv_row (getPatients tbl)))"
proof -
  have "\<forall>p \<in> set (getPatients tbl). patientToCSVRow p = Inr (csv_row p)"
    using assms(2) by (simp add: set_getPatients patientToCSVRow_valid)
  then have "map_throwing patientToCSVRow (getPatients tbl) = Inr (map csv_row (getPatients tbl))"
    by (rule map_throwing_all)
  moreover have "getPatients tbl \<noteq> []"
    using assms(1) by (simp add: getPatients_Nil_iff)
  ultimately show ?thesis
    by (simp add: exportToCSV_def rethrow_def Let_def join_headers line_feed_def)
qed

text \<open>
  C9. The export of an empty table is the sentence No patient data available for
  export, not a table. The export of a table with records, each created at an instant
  that a date can hold, is the header row Patient ID, Name, Age, Symptoms, Condition,
  Triage Level, Timestamp followed by one row per record in the order of the listing, the
  rows separated by line feeds; a row joins its cells by commas, the symptoms by
  semicolons, and shows the creation instant in ISO 8601. A cell with a comma, a double
  quote or a line break stands between double quotes with its double quotes doubled, any
  other cell is the value itself, and the age, written in digits, never needs quoting.
  The name O"Brien, J. becomes the cell "O""Brien, J.".
\<close>

theorem exportToCSV_format:
  "(tbl = [] \<longrightarrow> exportToCSV tbl = Inr ''No patient data available for export'')
   \<and> (tbl \<noteq> [] \<and> (\<forall>p \<in> set tbl. valid_time (timestamp p)) \<longrightarrow>
        exportToCSV tbl = Inr (join [line_feed] (header_row # map csv_row (getPatients tbl))))
   \<and> escapeCSVValue v = (if needs_quoting v then quoted v else v)
   \<and> \<not> needs_quoting (number_toString a)
   \<and> escapeCSVValue (''O'' @ [dquote] @ ''Brien, J.'')
       = [dquote] @ ''O'' @ [dquote, dquote] @ ''Brien, J.'' @ [dquote]"
proof (intro conjI impI)
  assume "tbl = []"
  then show "exportToCSV tbl = Inr ''No patient data available for export''"
    by (simp add: exportToCSV_empty)
next
  assume "tbl \<noteq> [] \<and> (\<forall>p \<in> set tbl. valid_time (timestamp p))"
  then show "exportToCSV tbl
               = Inr (join [line_feed] (header_row # map csv_row (getPatients tbl)))"
    by (simp add: exportToCSV_rows)
next
  show "escapeCSVValue v = (if needs_quoting v then quoted v else v)"
    by (simp only: escapeCSVValue_cell cell_def)
  show "\<not> needs_quoting (number_toString a)"
    by (rule number_toString_plain)
  show "escapeCSVValue (''O'' @ [dquote] @ ''Brien, J.'')
          = [dquote] @ ''O'' @ [dquote, dquote] @ ''Brien, J.'' @ [dquote]"
    by (simp add: escapeCSVValue_def replace_all_def dquote_def)
qed

theorem exportToCSV_format_witness:
  "[quoted_name_patient, sample_patient] \<noteq> []
   \<and> valid_time (timestamp quoted_name_patient) \<and> valid_time (timestamp sample_patient)
   \<and> exportToCSV [quoted_name_patient, sample_patient] =
       Inr (''Patient ID,Name,Age,Symptoms,Condition,Triage Level,Timestamp'' @ [line_feed]
            @ ''p9,'' @ [dquote] @ ''O'' @ [dquote, dquote] @ ''Brien, J.'' @ [dquote]
            @ '',52,fever;vomiting,Dehydrated,Urgent,2024-01-15T14:30:45.123Z'' @ [line_feed]
            @ ''p1,Amal Said,34,fever;dizziness,High temperature since morning,Urgent,''
            @ ''1970-01-01T00:00:01.000Z'')
   \<and> exportToCSV [] = Inr ''No patient data available for export''"
proof -
  let ?tbl = "[quoted_name_patient, sample_patient]"
  have v: "\<forall>p \<in> set ?tbl. valid_time (timestamp p)"
    by (simp add: valid_time_def quoted_name_patient_def sample_patient_def)
  have g: "getPatients ?tbl = [quoted_name_patient, sample_patient]"
    by (simp add: getPatients_def table_orderBy_timestamp_def quoted_name_patient_def
                  sample_patient_def)
  have r: "join [line_feed] (header_row # map csv_row [quoted_name_patient, sample_patient]) =
       ''Patient ID,Name,Age,Symptoms,Condition,Triage Level,Timestamp'' @ [line_feed]
            @ ''p9,'' @ [dquote] @ ''O'' @ [dquote, dquote] @ ''Brien, J.'' @ [dquote]
            @ '',52,fever;vomiting,Dehydrated,Urgent,2024-01-15T14:30:45.123Z'' @ [line_feed]
            @ ''p1,Amal Said,34,fever;dizziness,High temperature since morning,Urgent,''
            @ ''1970-01-01T00:00:01.000Z''"
    by code_simp
  note rows = exportToCSV_format [of ?tbl, THEN conjunct2, THEN conjunct1]
  note empty = exportToCSV_format [of "[]", THEN conjunct1]
  from rows v have "exportToCSV ?tbl
      = Inr (join [line_feed] (header_row # map csv_row (getPatients ?tbl)))"
    by blast
  then have "exportToCSV ?tbl =
       Inr (''Patient ID,Name,Age,Symptoms,Condition,Triage Level,Timestamp'' @ [line_feed]
            @ ''p9,'' @ [dquote] @ ''O'' @ [dquote, dquote] @ ''Brien, J.'' @ [dquote]
            @ '',52,fever;vomiting,Dehydrated,Urgent,2024-01-15T14:30:45.123Z'' @ [line_feed]
            @ ''p1,Amal Said,34,fever;dizziness,High temperature since morning,Urgent,''
            @ ''1970-01-01T00:00:01.000Z'')"
    by (simp only: g r)
  moreover from empty have "exportToCSV [] = Inr ''No patient data available for export''"
    by simp
  moreover from v have
    "valid_time (timestamp quoted_name_patient) \<and> valid_time (timestamp sample_patient)"
    by simp
  ultimately show ?thesis
    by blast
qed

end
